theory Spec2Isabelle
  imports Complex_Main "HOL-Library.Multiset" "HOL-Library.Sublist" "HOL-Library.Char_ord"
    "HOL-Library.List_Lexorder"
begin

section \<open>Data model\<close>

text \<open>
  A JavaScript number: a finite value, taken as a real (nothing below depends on
  rounding), one of the two infinities, or \<^verbatim>\<open>NaN\<close>.
\<close>

datatype number = Finite real | PositiveInfinity | NegativeInfinity | NaN

text \<open>
  The JSON objects of \<^verbatim>\<open>lib/AlertManager.js\<close>. A field that a JavaScript object
  may lack is an \<open>option\<close> (\<open>None\<close> is \<^verbatim>\<open>undefined\<close>). An operand is a string or a
  number.
\<close>

datatype operand = OperandUndefined | OperandString string | OperandNumber number

record target =
  target_type :: "string option"
  target_identifier :: "string option"

text \<open>
  A description is a string or an array of strings (\<^verbatim>\<open>concat\<close> takes both). One record
  stands for a property wherever it occurs, in a condition (where only \<^verbatim>\<open>property_id\<close> and
  the target need be set) and in the catalog of \<^verbatim>\<open>getProperties\<close>; likewise for an
  operator. \<open>operand_literal\<close> is false when the field is absent.
\<close>

datatype description = DescriptionUndefined | DescriptionString string | DescriptionArray "string list"

record property =
  property_id :: "int option"
  property_type :: "string option"
  target :: target
  format :: "string option"
  category :: "string list option"
  description :: description
  descriptionShort :: description
  sortOrder :: "number option"

record operator =
  operator_id :: "int option"
  operand :: operand
  operand_display :: "operand option"
  operand_format :: "string option"
  operand_type :: "string option"
  operand_literal :: bool

record condition =
  property :: property
  operator :: operator

record alert =
  alert_id :: "string option"
  user_id :: "string option"
  alert_system :: "string option"
  alert_type :: "string option"
  alert_state :: "string option"
  conditions :: "condition list"

record target_filter =
  filter_identifier :: "string option"

record condition_filter =
  filter_operand :: operand

record filter =
  filter_alert_type :: "string option"
  filter_symbol :: "string option"
  filter_target :: "target_filter option"
  filter_condition :: "condition_filter option"

record query =
  query_user_id :: "string option"
  query_alert_system :: "string option"
  query_filter :: "filter option"

text \<open>
  Every \<^verbatim>\<open>throw\<close> and every rejected promise is a value of \<open>error\<close>. The first two are
  the errors of \<^verbatim>\<open>checkDispose\<close> and \<^verbatim>\<open>checkStatus\<close>, with the name of the operation;
  \<open>ArgumentRequired\<close> is the error of \<^verbatim>\<open>assert.argumentIsRequired\<close>, with the name of the argument;
  \<open>TypeError\<close> is what the engine throws when a field of \<^verbatim>\<open>undefined\<close> or \<^verbatim>\<open>null\<close> is read
  or when something that is not a function is called;
  \<open>ConditionInvalid i\<close> is \<^verbatim>\<open>'Condition ' + i + ' is invalid. The price cannot be parsed.'\<close>;
  \<open>TimedOut\<close> carries the message given to \<^verbatim>\<open>promise.timeout\<close>.
\<close>

datatype error =
    Disposed string
  | NotConnected string
  | ArgumentRequired string
  | ValidationError
  | TypeError
  | ConditionInvalid nat
  | TimedOut string
  | ExternalError string

section \<open>Objects used as maps\<close>

text \<open>
  The source keeps its maps in plain objects created by \<^verbatim>\<open>{ }\<close>, tests a key with
  \<^verbatim>\<open>map.hasOwnProperty(key)\<close>, writes with \<^verbatim>\<open>map[key] = value\<close> and reads with
  \<^verbatim>\<open>map[key]\<close>. Every value stored is an object. Such an object is its own properties
  and, when one has been assigned through the key \<^verbatim>\<open>__proto__\<close>, that prototype (\<open>None\<close> is
  \<^verbatim>\<open>Object.prototype\<close>): an assignment to \<^verbatim>\<open>__proto__\<close> runs the setter inherited from
  \<^verbatim>\<open>Object.prototype\<close>, which replaces the prototype and creates no own property, so
  \<^verbatim>\<open>hasOwnProperty('__proto__')\<close> stays false, and a read of \<^verbatim>\<open>__proto__\<close> gives the
  prototype. Any other key names an own property once assigned. The source reads a key
  only after it has tested or assigned it, so no read below finds an inherited property
  other than \<^verbatim>\<open>__proto__\<close> and \<^verbatim>\<open>hasOwnProperty\<close>.
\<close>

record 'v object =
  own :: "string \<rightharpoonup> 'v"
  prototype :: "'v option"

definition emptyObject :: "'v object" where
  "emptyObject = \<lparr>own = Map.empty, prototype = None\<rparr>"

definition hasOwnProperty :: "'v object \<Rightarrow> string \<Rightarrow> bool" where
  "hasOwnProperty obj key = (key \<noteq> ''__proto__'' \<and> own obj key \<noteq> None)"

definition assign :: "'v object \<Rightarrow> string \<Rightarrow> 'v \<Rightarrow> 'v object" where
  "assign obj key v =
     (if key = ''__proto__'' then obj\<lparr>prototype := Some v\<rparr>
      else obj\<lparr>own := (own obj)(key \<mapsto> v)\<rparr>)"

definition getProperty :: "'v object \<Rightarrow> string \<Rightarrow> 'v option" where
  "getProperty obj key = (if key = ''__proto__'' then prototype obj else own obj key)"

text \<open>
  \<^verbatim>\<open>map.hasOwnProperty\<close> is itself a property read: it finds the method of
  \<^verbatim>\<open>Object.prototype\<close> unless the object has an own property of that name, or its
  prototype provides one (\<open>shadows\<close> tells so of the value assigned as prototype). What it
  finds then is a stored object, and calling it throws a \<^verbatim>\<open>TypeError\<close>.
\<close>

definition callsHasOwnProperty :: "('v \<Rightarrow> bool) \<Rightarrow> 'v object \<Rightarrow> bool" where
  "callsHasOwnProperty shadows obj =
     (own obj ''hasOwnProperty'' = None
      \<and> (case prototype obj of None \<Rightarrow> True | Some v \<Rightarrow> \<not> shadows v))"

section \<open>The manager and its subscriptions\<close>

text \<open>
  An \<^verbatim>\<open>Event\<close> of \<^verbatim>\<open>@barchart/common-js\<close> is its list of observers, in registration order;
  a callback is known by a number. The entry of a subscription map holds one event for
  each kind of notification, the count of subscribers and the handle the adapter returned
  (\<open>None\<close> until the first assignment).
\<close>

type_synonym callback = nat

record subscriptionData =
  createEvent :: "callback list"
  changeEvent :: "callback list"
  deleteEvent :: "callback list"
  triggerEvent :: "callback list"
  subscribers :: int
  implementationBinding :: "nat option"

text \<open>
  What the manager does to the outside, in the order it happens: calls on the adapter,
  calls on a channel handle the adapter returned, calls of \<^verbatim>\<open>lookupInstrument\<close> and
  invocations of registered callbacks.
\<close>

datatype effect =
    AdapterConnect nat
  | AdapterSubscribeAlerts query nat
  | AdapterSubscribeTriggers query nat
  | BindingDispose nat
  | AdapterCreateAlert alert
  | AdapterUpdateAlert "string option" string
  | AdapterRetrieveAlerts query
  | AdapterGetProperties
  | AdapterGetOperators
  | LookupInstrument "string option"
  | AdapterDispose nat
  | Invoke callback alert

text \<open>
  The fields of \<^verbatim>\<open>AlertManager\<close> that the operations below read and write.
  \<open>isDisposed\<close> is the flag of the \<^verbatim>\<open>Disposable\<close> base class. \<open>adapter\<close> is
  \<^verbatim>\<open>_adapter\<close>: \<open>None\<close> is \<^verbatim>\<open>null\<close>, otherwise the number of the adapter instance.
  \<open>connectPromise\<close> is \<^verbatim>\<open>_connectPromise\<close>: \<open>None\<close> is \<^verbatim>\<open>null\<close>, otherwise the number of
  the memoized promise; \<open>promises\<close> counts the promises memoized so far and \<open>settled\<close>
  tells how each one settled (\<open>None\<close> while it is pending).
  The two-level maps are the objects \<^verbatim>\<open>_alertSubscriptionMap\<close> and
  \<^verbatim>\<open>_triggerSubscriptionMap\<close>, first keyed by \<^verbatim>\<open>user_id\<close>, then by \<^verbatim>\<open>alert_system\<close>.
  The entry objects are shared between the map and the disposal handles handed out, so
  they live in a store of their own: \<open>entries\<close> gives the entry with a given number,
  \<open>allocated\<close> counts the entries created so far, which are numbered in the order of their
  creation, and the maps hold numbers.
  \<^verbatim>\<open>_onDispose\<close> sets \<^verbatim>\<open>_alertSubscriptionMap\<close> to \<^verbatim>\<open>null\<close>, and nothing else does, so the
  field reads \<^verbatim>\<open>null\<close> exactly when \<open>isDisposed\<close> holds; the entries stay in the record
  because the disposal handles handed out before still refer to them.
  \<open>bindings\<close> counts the channel handles handed out by the adapter so far, \<open>effects\<close> is
  the record of what was done.
\<close>

record manager =
  isDisposed :: bool
  adapter :: "nat option"
  connectPromise :: "nat option"
  promises :: nat
  settled :: "nat \<rightharpoonup> (error + unit)"
  alertSubscriptionMap :: "nat object object"
  triggerSubscriptionMap :: "nat object object"
  entries :: "nat \<Rightarrow> subscriptionData"
  allocated :: nat
  bindings :: nat
  effects :: "effect list"

text \<open>
  An object used as a map turns a key into a string: an absent \<^verbatim>\<open>user_id\<close> is the key
  \<^verbatim>\<open>"undefined"\<close>.
\<close>

definition propertyKey :: "string option \<Rightarrow> string" where
  "propertyKey k = (case k of None \<Rightarrow> ''undefined'' | Some s \<Rightarrow> s)"

definition checkDispose :: "manager \<Rightarrow> string \<Rightarrow> error + unit" where
  "checkDispose m operation = (if isDisposed m then Inl (Disposed operation) else Inr ())"

definition checkStatus :: "manager \<Rightarrow> string \<Rightarrow> error + unit" where
  "checkStatus m operation =
     (case checkDispose m operation of
        Inl e \<Rightarrow> Inl e
      | Inr _ \<Rightarrow> (if adapter m = None then Inl (NotConnected operation) else Inr ()))"

definition newSubscriptionData :: subscriptionData where
  "newSubscriptionData =
     \<lparr>createEvent = [], changeEvent = [], deleteEvent = [], triggerEvent = [],
      subscribers = 0, implementationBinding = None\<rparr>"

text \<open>The manager as the constructor leaves it.\<close>

definition newManager :: manager where
  "newManager =
     \<lparr>isDisposed = False, adapter = None, connectPromise = None, promises = 0,
      settled = Map.empty, alertSubscriptionMap = emptyObject,
      triggerSubscriptionMap = emptyObject, entries = (\<lambda>_. newSubscriptionData),
      allocated = 0, bindings = 0, effects = []\<rparr>"

section \<open>retrieveAlerts\<close>











section \<open>Properties of retrieveAlerts\<close>











subsection \<open>A connected manager and two alerts\<close>

definition connectedManager :: manager where
  "connectedManager =
     \<lparr>isDisposed = False, adapter = Some 0, connectPromise = Some 0,
      promises = 1, settled = [0 \<mapsto> Inr ()],
      alertSubscriptionMap = emptyObject, triggerSubscriptionMap = emptyObject,
      entries = (\<lambda>_. newSubscriptionData), allocated = 0,
      bindings = 0, effects = [AdapterConnect 0]\<rparr>"

definition lastAbove :: "string \<Rightarrow> string \<Rightarrow> condition" where
  "lastAbove symbol value =
     \<lparr>property = \<lparr>property_id = Some 1, property_type = None,
                   target = \<lparr>target_type = Some ''symbol'', target_identifier = Some symbol\<rparr>,
                   format = None, category = None, description = DescriptionUndefined,
                   descriptionShort = DescriptionUndefined, sortOrder = None\<rparr>,
      operator = \<lparr>operator_id = Some 2, operand = OperandString value,
                   operand_display = None, operand_format = None,
                   operand_type = None, operand_literal = False\<rparr>\<rparr>"

definition alertOf :: "string \<Rightarrow> string \<Rightarrow> condition list \<Rightarrow> alert" where
  "alertOf ident type cs =
     \<lparr>alert_id = Some ident, user_id = Some ''me'', alert_system = Some ''barchart.com'',
      alert_type = Some type, alert_state = Some ''Inactive'', conditions = cs\<rparr>"


lemma connectedManager_status: "checkStatus connectedManager operation = Inr ()"
  by (simp add: checkStatus_def checkDispose_def connectedManager_def)


subsection \<open>A query whose filter fields are empty strings\<close>



section \<open>getPropertyTree\<close>

text \<open>
  A node of the tree: its description, its sort order, its children (\<^verbatim>\<open>items\<close>; the empty
  list stands for an absent \<^verbatim>\<open>items\<close> field, since the source creates the array right
  before it pushes the first child) and the property placed on it (\<^verbatim>\<open>item\<close>). The root
  \<^verbatim>\<open>{ }\<close> has no description and no sort order; its description is never read.
\<close>

datatype node =
  Node (node_description: string) (node_sortOrder: "number option") (items: "node list")
    (item: "property option")

text \<open>
  \<^verbatim>\<open>(property.category || [ ]).concat(descriptionSelector(property) || [ ])\<close>: an absent
  category, an absent description and the empty string are falsy; \<^verbatim>\<open>concat\<close> appends a
  string as one element and an array element by element.
\<close>

definition descriptionSelector :: "bool \<Rightarrow> property \<Rightarrow> description" where
  "descriptionSelector short p = (if short then descriptionShort p else description p)"

definition descriptionPath :: "bool \<Rightarrow> property \<Rightarrow> string list" where
  "descriptionPath short p =
     (case category p of None \<Rightarrow> [] | Some cs \<Rightarrow> cs)
     @ (case descriptionSelector short p of
          DescriptionUndefined \<Rightarrow> []
        | DescriptionString s \<Rightarrow> (if s = [] then [] else [s])
        | DescriptionArray ds \<Rightarrow> ds)"

text \<open>The sort order of a new child: both branches of the source assign the same value.\<close>

definition childSortOrder :: "property \<Rightarrow> bool \<Rightarrow> number option" where
  "childSortOrder p isLast =
     (if isLast \<and> sortOrder p \<noteq> None then sortOrder p else sortOrder p)"

fun updateFirst :: "('a \<Rightarrow> bool) \<Rightarrow> ('a \<Rightarrow> 'a) \<Rightarrow> 'a list \<Rightarrow> 'a list" where
  "updateFirst P f [] = []"
| "updateFirst P f (y # ys) = (if P y then f y # ys else y # updateFirst P f ys)"

text \<open>
  The body of the \<^verbatim>\<open>reduce\<close>: walk the path from \<open>node\<close>, entering the first child with the
  segment's description or pushing a new one, and put the property on the node reached.
\<close>

fun addProperty :: "property \<Rightarrow> string list \<Rightarrow> node \<Rightarrow> node" where
  "addProperty p [] (Node d s its it) = Node d s its (Some p)"
| "addProperty p (x # xs) (Node d s its it) =
     (case find (\<lambda>candidate. node_description candidate = x) its of
        None \<Rightarrow> Node d s (its @ [addProperty p xs (Node x (childSortOrder p (xs = [])) [] None)]) it
      | Some _ \<Rightarrow>
          Node d s (updateFirst (\<lambda>candidate. node_description candidate = x) (addProperty p xs) its) it)"

definition buildTree :: "bool \<Rightarrow> property list \<Rightarrow> node" where
  "buildTree short properties =
     foldl (\<lambda>tree p. addProperty p (descriptionPath short p) tree) (Node [] None [] None) properties"

text \<open>
  The comparator given to \<^verbatim>\<open>sort\<close>. An absent sort order is \<^verbatim>\<open>undefined\<close>, which the
  subtraction reads as \<^verbatim>\<open>NaN\<close>; the difference of two finite numbers is taken exactly,
  which has the sign of the rounded one. \<^verbatim>\<open>NaN === 0\<close> is false, so a \<^verbatim>\<open>NaN\<close> is returned
  as it is. \<open>localeCompare\<close> is the host's string comparison, a parameter.
\<close>

definition toNumber :: "number option \<Rightarrow> number" where
  "toNumber v = (case v of None \<Rightarrow> NaN | Some n \<Rightarrow> n)"

fun subtract :: "number \<Rightarrow> number \<Rightarrow> number" where
  "subtract (Finite x) (Finite y) = Finite (x - y)"
| "subtract (Finite x) PositiveInfinity = NegativeInfinity"
| "subtract (Finite x) NegativeInfinity = PositiveInfinity"
| "subtract PositiveInfinity (Finite y) = PositiveInfinity"
| "subtract PositiveInfinity NegativeInfinity = PositiveInfinity"
| "subtract NegativeInfinity (Finite y) = NegativeInfinity"
| "subtract NegativeInfinity PositiveInfinity = NegativeInfinity"
| "subtract PositiveInfinity PositiveInfinity = NaN"
| "subtract NegativeInfinity NegativeInfinity = NaN"
| "subtract NaN y = NaN"
| "subtract x NaN = NaN"

definition compareNodes :: "(string \<Rightarrow> string \<Rightarrow> int) \<Rightarrow> node \<Rightarrow> node \<Rightarrow> number" where
  "compareNodes localeCompare a b =
     (let returnVal = subtract (toNumber (node_sortOrder a)) (toNumber (node_sortOrder b))
      in if returnVal = Finite 0
         then Finite (real_of_int (localeCompare (node_description a) (node_description b)))
         else returnVal)"

text \<open>
  \<^verbatim>\<open>Array.prototype.sort\<close> with a comparator. The engine reads what the comparator returns
  by its sign, \<^verbatim>\<open>NaN\<close> as \<open>0\<close>. The language fixes the outcome only when the comparator is
  consistent on the elements of the array: then the outcome is the stable sort. With any
  other comparator the order is left to the engine. So the engine is a parameter: it is
  given the comparison of the elements by position and the length of the array, and
  answers with the positions in their new order (a position outside the array is not
  taken).
\<close>

definition sign :: "number \<Rightarrow> int" where
  "sign v =
     (case v of
        Finite r \<Rightarrow> (if r < 0 then - 1 else if r = 0 then 0 else 1)
      | PositiveInfinity \<Rightarrow> 1
      | NegativeInfinity \<Rightarrow> - 1
      | NaN \<Rightarrow> 0)"

type_synonym engine = "(nat \<Rightarrow> nat \<Rightarrow> number) \<Rightarrow> nat \<Rightarrow> nat list"

definition arraySort :: "engine \<Rightarrow> ('a \<Rightarrow> 'a \<Rightarrow> number) \<Rightarrow> 'a list \<Rightarrow> 'a list" where
  "arraySort sorter cmp xs =
     map (\<lambda>i. xs ! i)
       (filter (\<lambda>i. i < length xs) (sorter (\<lambda>i j. cmp (xs ! i) (xs ! j)) (length xs)))"

lemma set_arraySort: "set (arraySort sorter cmp xs) \<subseteq> set xs"
  by (auto simp: arraySort_def)

function sortTree :: "engine \<Rightarrow> (string \<Rightarrow> string \<Rightarrow> int) \<Rightarrow> node \<Rightarrow> node" where
  "sortTree sorter localeCompare (Node d s its it) =
     Node d s (map (sortTree sorter localeCompare) (arraySort sorter (compareNodes localeCompare) its)) it"
  by pat_completeness auto
termination
proof (relation "measure (\<lambda>(sorter, lc, n). size n)")
  show "wf (measure (\<lambda>(sorter, lc, n). size n))" by simp
next
  fix sorter :: engine and localeCompare :: "string \<Rightarrow> string \<Rightarrow> int" and d s its it x
  assume "x \<in> set (arraySort sorter (compareNodes localeCompare) its)"
  then have "x \<in> set its" by (auto simp: arraySort_def)
  then have "size x < Suc (size_list size its)"
    by (induction its) auto
  then show "((sorter, localeCompare, x), (sorter, localeCompare, Node d s its it))
               \<in> measure (\<lambda>(sorter, lc, n). size n)"
    by simp
qed

definition getPropertyTree ::
  "engine \<Rightarrow> (string \<Rightarrow> string \<Rightarrow> int) \<Rightarrow> property list \<Rightarrow> bool \<Rightarrow> node list" where
  "getPropertyTree sorter localeCompare properties short =
     items (sortTree sorter localeCompare (buildTree short properties))"

text \<open>
  The stable sort, by insertion, and the engine that sorts so whatever the comparator. A
  comparator is consistent on the positions below \<open>n\<close> when its signs are antisymmetric
  and its \<open>\<le>\<close> is transitive there; an engine conforms to the language when on a
  consistent comparator it gives the stable sort.
\<close>

fun insertBy :: "('a \<Rightarrow> 'a \<Rightarrow> number) \<Rightarrow> 'a \<Rightarrow> 'a list \<Rightarrow> 'a list" where
  "insertBy cmp x [] = [x]"
| "insertBy cmp x (y # ys) =
     (if sign (cmp x y) \<le> 0 then x # y # ys else y # insertBy cmp x ys)"

fun sortBy :: "('a \<Rightarrow> 'a \<Rightarrow> number) \<Rightarrow> 'a list \<Rightarrow> 'a list" where
  "sortBy cmp [] = []"
| "sortBy cmp (x # xs) = insertBy cmp x (sortBy cmp xs)"

definition stableSort :: engine where
  "stableSort cmp n = sortBy cmp [0..<n]"

definition consistent :: "(nat \<Rightarrow> nat \<Rightarrow> number) \<Rightarrow> nat \<Rightarrow> bool" where
  "consistent cmp n =
     ((\<forall>i<n. \<forall>j<n. sign (cmp i j) = - sign (cmp j i))
      \<and> (\<forall>i<n. \<forall>j<n. \<forall>k<n. sign (cmp i j) \<le> 0 \<and> sign (cmp j k) \<le> 0 \<longrightarrow> sign (cmp i k) \<le> 0))"

definition conforming :: "engine \<Rightarrow> bool" where
  "conforming sorter = (\<forall>cmp n. consistent cmp n \<longrightarrow> sorter cmp n = stableSort cmp n)"

section \<open>Properties of getPropertyTree\<close>

lemma set_insertBy: "set (insertBy cmp x ys) = insert x (set ys)"
  by (induction ys) auto

lemma set_sortBy: "set (sortBy cmp xs) = set xs"
  by (induction xs) (auto simp: set_insertBy)

lemma mset_insertBy: "mset (insertBy cmp x ys) = add_mset x (mset ys)"
  by (induction ys) auto

lemma mset_sortBy: "mset (sortBy cmp xs) = mset xs"
  by (induction xs) (auto simp: mset_insertBy)

lemma map_insertBy:
  "map f (insertBy (\<lambda>i j. cmp (f i) (f j)) x ys) = insertBy cmp (f x) (map f ys)"
  by (induction ys) auto

lemma map_sortBy: "map f (sortBy (\<lambda>i j. cmp (f i) (f j)) xs) = sortBy cmp (map f xs)"
  by (induction xs) (auto simp: map_insertBy)

lemma arraySort_stableSort [simp]: "arraySort stableSort cmp xs = sortBy cmp xs"
proof -
  let ?c = "\<lambda>i j. cmp (xs ! i) (xs ! j)"
  have "filter (\<lambda>i. i < length xs) (sortBy ?c [0..<length xs]) = sortBy ?c [0..<length xs]"
    by (rule filter_True) (simp add: set_sortBy)
  then have "arraySort stableSort cmp xs = map (\<lambda>i. xs ! i) (sortBy ?c [0..<length xs])"
    by (simp add: arraySort_def stableSort_def)
  also have "\<dots> = sortBy cmp (map (\<lambda>i. xs ! i) [0..<length xs])"
    by (rule map_sortBy)
  also have "\<dots> = sortBy cmp xs"
    by (simp add: map_nth)
  finally show ?thesis .
qed

lemma arraySort_conforming:
  assumes "conforming sorter" and "consistent (\<lambda>i j. cmp (xs ! i) (xs ! j)) (length xs)"
  shows "arraySort sorter cmp xs = sortBy cmp xs"
proof -
  have "sorter (\<lambda>i j. cmp (xs ! i) (xs ! j)) (length xs)
          = stableSort (\<lambda>i j. cmp (xs ! i) (xs ! j)) (length xs)"
    using assms by (simp add: conforming_def)
  then have "arraySort sorter cmp xs = arraySort stableSort cmp xs"
    by (simp add: arraySort_def)
  then show ?thesis by (simp add: arraySort_stableSort)
qed

lemma conforming_stableSort: "conforming stableSort"
  by (simp add: conforming_def)

text \<open>
  The order the siblings are to be in: ascending numeric sort order, ties broken by the
  comparison of the descriptions.
\<close>

definition siblingOrder :: "(string \<Rightarrow> string \<Rightarrow> int) \<Rightarrow> node \<Rightarrow> node \<Rightarrow> bool" where
  "siblingOrder localeCompare a b =
     (case (node_sortOrder a, node_sortOrder b) of
        (Some (Finite x), Some (Finite y)) \<Rightarrow>
          x < y \<or> (x = y \<and> localeCompare (node_description a) (node_description b) \<le> 0)
      | _ \<Rightarrow> False)"

lemma siblingOrder_iff:
  "siblingOrder lc a b \<longleftrightarrow>
     (\<exists>x y. node_sortOrder a = Some (Finite x) \<and> node_sortOrder b = Some (Finite y)
        \<and> (x < y \<or> (x = y \<and> lc (node_description a) (node_description b) \<le> 0)))"
proof (cases "node_sortOrder a")
  case None
  then show ?thesis by (simp add: siblingOrder_def)
next
  case a: (Some na)
  show ?thesis
  proof (cases "node_sortOrder b")
    case None
    then show ?thesis using a by (cases na) (simp_all add: siblingOrder_def)
  next
    case b: (Some nb)
    show ?thesis using a b by (cases na; cases nb) (simp_all add: siblingOrder_def)
  qed
qed

fun sortedSiblings :: "(string \<Rightarrow> string \<Rightarrow> int) \<Rightarrow> node \<Rightarrow> bool" where
  "sortedSiblings localeCompare (Node d s its it) =
     (sorted_wrt (siblingOrder localeCompare) its \<and> list_all (sortedSiblings localeCompare) its)"

definition finiteOrder :: "number option \<Rightarrow> bool" where
  "finiteOrder v = (\<exists>r. v = Some (Finite r))"

fun numericTree :: "node \<Rightarrow> bool" where
  "numericTree (Node d s its it) =
     list_all (\<lambda>c. finiteOrder (node_sortOrder c) \<and> numericTree c) its"

lemma addProperty_keeps [simp]:
  "node_description (addProperty p xs n) = node_description n"
  "node_sortOrder (addProperty p xs n) = node_sortOrder n"
  by (cases xs; cases n; simp split: option.splits)+

lemma list_all_updateFirst:
  assumes "list_all Q ys" and "\<And>y. y \<in> set ys \<Longrightarrow> Q y \<Longrightarrow> Q (f y)"
  shows "list_all Q (updateFirst P f ys)"
  using assms by (induction ys) auto

lemma addProperty_numeric:
  "finiteOrder (sortOrder p) \<Longrightarrow> numericTree n \<Longrightarrow> numericTree (addProperty p xs n)"
proof (induction p xs n rule: addProperty.induct)
  case (1 p d s its it)
  then show ?case by simp
next
  case (2 p x xs d s its it)
  show ?case
  proof (cases "find (\<lambda>candidate. node_description candidate = x) its")
    case None
    have "numericTree (Node x (childSortOrder p (xs = [])) [] None)" by simp
    with 2 None show ?thesis by (simp add: childSortOrder_def)
  next
    case (Some c)
    have "list_all (\<lambda>c. finiteOrder (node_sortOrder c) \<and> numericTree c)
            (updateFirst (\<lambda>candidate. node_description candidate = x) (addProperty p xs) its)"
    proof (rule list_all_updateFirst)
      show "list_all (\<lambda>c. finiteOrder (node_sortOrder c) \<and> numericTree c) its"
        using "2.prems"(2) by simp
    next
      fix y assume "y \<in> set its" "finiteOrder (node_sortOrder y) \<and> numericTree y"
      then show "finiteOrder (node_sortOrder (addProperty p xs y)) \<and> numericTree (addProperty p xs y)"
        using "2.IH"(2) [OF Some "2.prems"(1)] by simp
    qed
    with Some show ?thesis by simp
  qed
qed

lemma foldl_addProperty_numeric:
  assumes "\<forall>p\<in>set ps. finiteOrder (sortOrder p)" and "numericTree n"
  shows "numericTree (foldl (\<lambda>tree p. addProperty p (descriptionPath short p) tree) n ps)"
  using assms by (induction ps arbitrary: n) (auto simp: addProperty_numeric)

lemma buildTree_numeric:
  "\<forall>p\<in>set ps. finiteOrder (sortOrder p) \<Longrightarrow> numericTree (buildTree short ps)"
  unfolding buildTree_def by (rule foldl_addProperty_numeric) simp_all

lemma sign_of_int: "sign (Finite (real_of_int k)) = sgn k"
  by (simp add: sign_def sgn_if)

lemma compareNodes_finite:
  assumes "node_sortOrder a = Some (Finite x)" and "node_sortOrder b = Some (Finite y)"
  shows "sign (compareNodes lc a b)
           = (if x < y then - 1 else if x = y then sgn (lc (node_description a) (node_description b))
              else 1)"
  using assms by (auto simp: compareNodes_def toNumber_def Let_def sign_of_int) (auto simp: sign_def)

lemma compareNodes_order:
  assumes "finiteOrder (node_sortOrder a)" and "finiteOrder (node_sortOrder b)"
  shows "sign (compareNodes lc a b) \<le> 0 \<longleftrightarrow> siblingOrder lc a b"
proof -
  obtain x y where xy: "node_sortOrder a = Some (Finite x)" "node_sortOrder b = Some (Finite y)"
    using assms by (auto simp: finiteOrder_def)
  show ?thesis
    unfolding compareNodes_finite [OF xy] siblingOrder_iff using xy
    by (auto simp: sgn_if split: if_splits)
qed

lemma compareNodes_antisymmetric:
  assumes "\<forall>x y. sgn (lc x y) = - sgn (lc y x)"
    and "finiteOrder (node_sortOrder a)" and "finiteOrder (node_sortOrder b)"
  shows "sign (compareNodes lc a b) = - sign (compareNodes lc b a)"
proof -
  obtain x y where xy: "node_sortOrder a = Some (Finite x)" "node_sortOrder b = Some (Finite y)"
    using assms(2,3) by (auto simp: finiteOrder_def)
  have "sgn (lc (node_description a) (node_description b))
          = - sgn (lc (node_description b) (node_description a))"
    using assms(1) by blast
  then show ?thesis
    unfolding compareNodes_finite [OF xy] compareNodes_finite [OF xy(2,1)] by auto
qed

lemma localeCompare_total:
  fixes lc :: "string \<Rightarrow> string \<Rightarrow> int"
  assumes "\<forall>x y. sgn (lc x y) = - sgn (lc y x)"
  shows "lc x y \<le> 0 \<or> lc y x \<le> 0"
proof -
  show ?thesis
  proof (cases "lc y x \<le> 0")
    case True
    then show ?thesis by simp
  next
    case False
    then have "sgn (lc y x) = 1" by simp
    moreover have "sgn (lc x y) = - sgn (lc y x)" using assms by blast
    ultimately have "sgn (lc x y) = - 1" by simp
    then have "lc x y < 0" by (simp only: sgn_1_neg)
    then show ?thesis by simp
  qed
qed

lemma siblingOrder_total:
  assumes "\<forall>x y. sgn (lc x y) = - sgn (lc y x)"
    and "finiteOrder (node_sortOrder a)" and "finiteOrder (node_sortOrder b)"
  shows "siblingOrder lc a b \<or> siblingOrder lc b a"
proof -
  obtain x y where xy: "node_sortOrder a = Some (Finite x)" "node_sortOrder b = Some (Finite y)"
    using assms(2,3) by (auto simp: finiteOrder_def)
  have "lc (node_description a) (node_description b) \<le> 0
        \<or> lc (node_description b) (node_description a) \<le> 0"
    using localeCompare_total [OF assms(1)] .
  then show ?thesis
    using xy by (cases "x < y"; cases "y < x") (auto simp: siblingOrder_iff)
qed

lemma siblingOrder_finite:
  assumes "siblingOrder lc a b"
  shows "finiteOrder (node_sortOrder a)" and "finiteOrder (node_sortOrder b)"
  using assms by (auto simp: siblingOrder_iff finiteOrder_def)

lemma siblingOrder_trans:
  assumes "\<forall>x y z. lc x y \<le> 0 \<and> lc y z \<le> 0 \<longrightarrow> lc x z \<le> 0"
    and "siblingOrder lc a b" and "siblingOrder lc b c"
  shows "siblingOrder lc a c"
proof -
  obtain x y z where
    s: "node_sortOrder a = Some (Finite x)" "node_sortOrder b = Some (Finite y)"
       "node_sortOrder c = Some (Finite z)"
    using siblingOrder_finite [OF assms(2)] siblingOrder_finite [OF assms(3)]
    by (auto simp: finiteOrder_def)
  have ab: "x < y \<or> (x = y \<and> lc (node_description a) (node_description b) \<le> 0)"
    using assms(2) s by (simp add: siblingOrder_iff)
  have bc: "y < z \<or> (y = z \<and> lc (node_description b) (node_description c) \<le> 0)"
    using assms(3) s by (simp add: siblingOrder_iff)
  have "x < z \<or> (x = z \<and> lc (node_description a) (node_description c) \<le> 0)"
  proof (cases "x = y \<and> y = z")
    case True
    then have "lc (node_description a) (node_description c) \<le> 0"
      using ab bc assms(1) by (meson less_irrefl)
    with True show ?thesis by simp
  next
    case False
    then show ?thesis using ab bc by auto
  qed
  then show ?thesis using s by (simp add: siblingOrder_iff)
qed

lemma compareNodes_consistent:
  assumes anti: "\<forall>x y. sgn (lc x y) = - sgn (lc y x)"
    and trans: "\<forall>x y z. lc x y \<le> 0 \<and> lc y z \<le> 0 \<longrightarrow> lc x z \<le> 0"
    and fin: "list_all (\<lambda>c. finiteOrder (node_sortOrder c)) xs"
  shows "consistent (\<lambda>i j. compareNodes lc (xs ! i) (xs ! j)) (length xs)"
proof -
  have f: "finiteOrder (node_sortOrder (xs ! i))" if "i < length xs" for i
    using fin that by (simp add: list_all_length)
  have a: "sign (compareNodes lc (xs ! i) (xs ! j)) = - sign (compareNodes lc (xs ! j) (xs ! i))"
    if "i < length xs" "j < length xs" for i j
    using compareNodes_antisymmetric [OF anti f f] that by blast
  have t: "sign (compareNodes lc (xs ! i) (xs ! k)) \<le> 0"
    if "i < length xs" "j < length xs" "k < length xs"
      "sign (compareNodes lc (xs ! i) (xs ! j)) \<le> 0" "sign (compareNodes lc (xs ! j) (xs ! k)) \<le> 0"
    for i j k
  proof -
    have "siblingOrder lc (xs ! i) (xs ! j)" "siblingOrder lc (xs ! j) (xs ! k)"
      using that compareNodes_order f by blast+
    then have "siblingOrder lc (xs ! i) (xs ! k)"
      using siblingOrder_trans [OF trans] by blast
    then show ?thesis using that compareNodes_order f by blast
  qed
  show ?thesis
    unfolding consistent_def using a t by blast
qed

lemma sorted_insertBy:
  assumes anti: "\<forall>x y. sgn (lc x y) = - sgn (lc y x)"
    and trans: "\<forall>x y z. lc x y \<le> 0 \<and> lc y z \<le> 0 \<longrightarrow> lc x z \<le> 0"
    and "finiteOrder (node_sortOrder x)" and "list_all (\<lambda>c. finiteOrder (node_sortOrder c)) ys"
    and "sorted_wrt (siblingOrder lc) ys"
  shows "sorted_wrt (siblingOrder lc) (insertBy (compareNodes lc) x ys)"
  using assms(3-)
proof (induction ys)
  case Nil
  then show ?case by simp
next
  case (Cons y ys)
  show ?case
  proof (cases "sign (compareNodes lc x y) \<le> 0")
    case True
    then have xy: "siblingOrder lc x y"
      using Cons.prems compareNodes_order [of x y lc] by simp
    have "\<forall>z\<in>set ys. siblingOrder lc x z"
      using xy Cons.prems(3) siblingOrder_trans [OF trans] by auto
    with True xy Cons.prems show ?thesis by simp
  next
    case False
    then have "\<not> siblingOrder lc x y"
      using Cons.prems compareNodes_order [of x y lc] by simp
    then have yx: "siblingOrder lc y x"
      using siblingOrder_total [OF anti, of x y] Cons.prems by simp
    have "sorted_wrt (siblingOrder lc) (insertBy (compareNodes lc) x ys)"
      using Cons by simp
    with False yx Cons.prems show ?thesis by (auto simp: set_insertBy)
  qed
qed

lemma sorted_sortBy:
  assumes "\<forall>x y. sgn (lc x y) = - sgn (lc y x)"
    and "\<forall>x y z. lc x y \<le> 0 \<and> lc y z \<le> 0 \<longrightarrow> lc x z \<le> 0"
    and "list_all (\<lambda>c. finiteOrder (node_sortOrder c)) xs"
  shows "sorted_wrt (siblingOrder lc) (sortBy (compareNodes lc) xs)"
  using assms(3)
proof (induction xs)
  case Nil
  then show ?case by simp
next
  case (Cons x xs)
  have "list_all (\<lambda>c. finiteOrder (node_sortOrder c)) (sortBy (compareNodes lc) xs)"
    using Cons.prems by (simp add: list_all_iff set_sortBy)
  with Cons sorted_insertBy [OF assms(1,2)] show ?case by simp
qed

lemma sortTree_stableSort [simp]:
  "sortTree stableSort lc (Node d s its it)
     = Node d s (map (sortTree stableSort lc) (sortBy (compareNodes lc) its)) it"
  by (simp add: arraySort_stableSort)

lemma sortTree_keeps [simp]:
  "node_description (sortTree sorter lc n) = node_description n"
  "node_sortOrder (sortTree sorter lc n) = node_sortOrder n"
  by (cases n; simp)+

lemma sortTree_item [simp]: "item (sortTree sorter lc n) = item n"
  by (cases n) simp

lemma siblingOrder_sortTree [simp]:
  "siblingOrder lc (sortTree sorter lc a) (sortTree sorter lc b) = siblingOrder lc a b"
  by (simp add: siblingOrder_iff)

lemma sortTree_conforming:
  "conforming sorter \<Longrightarrow>
   \<forall>x y. sgn (lc x y) = - sgn (lc y x) \<Longrightarrow>
   \<forall>x y z. lc x y \<le> 0 \<and> lc y z \<le> 0 \<longrightarrow> lc x z \<le> 0 \<Longrightarrow>
   numericTree n \<Longrightarrow> sortTree sorter lc n = sortTree stableSort lc n"
proof (induction sorter lc n rule: sortTree.induct)
  case (1 sorter lc d s its it)
  have fin: "list_all (\<lambda>c. finiteOrder (node_sortOrder c)) its"
    using "1.prems"(4) by (simp add: list_all_iff)
  have srt: "arraySort sorter (compareNodes lc) its = sortBy (compareNodes lc) its"
    using arraySort_conforming [OF "1.prems"(1) compareNodes_consistent [OF "1.prems"(2,3) fin]] .
  have "sortTree sorter lc x = sortTree stableSort lc x"
    if "x \<in> set (sortBy (compareNodes lc) its)" for x
  proof -
    have "x \<in> set its" using that by (simp add: set_sortBy)
    then have "numericTree x" using "1.prems"(4) by (simp add: list_all_iff)
    then show ?thesis
      using "1.IH" [OF _ "1.prems"(1,2,3)] that srt by simp
  qed
  then show ?case by (simp add: srt)
qed

lemma sortTree_sorted:
  assumes "\<forall>x y. sgn (lc x y) = - sgn (lc y x)"
    and "\<forall>x y z. lc x y \<le> 0 \<and> lc y z \<le> 0 \<longrightarrow> lc x z \<le> 0"
  shows "numericTree n \<Longrightarrow> sortedSiblings lc (sortTree stableSort lc n)"
proof (induction n)
  case (Node d s its it)
  have num: "list_all (\<lambda>c. finiteOrder (node_sortOrder c)) its"
    using Node.prems by (simp add: list_all_iff)
  have "sorted_wrt (siblingOrder lc) (sortBy (compareNodes lc) its)"
    using sorted_sortBy [OF assms num] .
  then have a: "sorted_wrt (siblingOrder lc)
                  (map (sortTree stableSort lc) (sortBy (compareNodes lc) its))"
    by (simp add: sorted_wrt_map)
  have b: "list_all (sortedSiblings lc) (map (sortTree stableSort lc) (sortBy (compareNodes lc) its))"
    using Node.IH Node.prems by (simp add: list_all_iff set_sortBy)
  from a b show ?case by simp
qed

lemma sortTree_items:
  "mset (items (sortTree stableSort lc n)) = image_mset (sortTree stableSort lc) (mset (items n))"
proof (cases n)
  case (Node d s its it)
  have "mset (map (sortTree stableSort lc) (sortBy (compareNodes lc) its))
          = image_mset (sortTree stableSort lc) (mset (sortBy (compareNodes lc) its))"
    by simp
  then show ?thesis by (simp add: Node mset_sortBy)
qed

subsection \<open>The two properties of the example\<close>

definition exampleProperty :: "string \<Rightarrow> number option \<Rightarrow> property" where
  "exampleProperty d order =
     \<lparr>property_id = None, property_type = None,
      target = \<lparr>target_type = None, target_identifier = None\<rparr>,
      format = None, category = Some [''A''], description = DescriptionString d,
      descriptionShort = DescriptionUndefined, sortOrder = order\<rparr>"

lemma getPropertyTree_example:
  "getPropertyTree stableSort cmp
     [exampleProperty ''X'' (Some (Finite 2)), exampleProperty ''Y'' (Some (Finite 1))] False
     = [Node ''A'' (Some (Finite 2))
          [Node ''Y'' (Some (Finite 1)) [] (Some (exampleProperty ''Y'' (Some (Finite 1)))),
           Node ''X'' (Some (Finite 2)) [] (Some (exampleProperty ''X'' (Some (Finite 2))))] None]"
  by (simp add: getPropertyTree_def buildTree_def descriptionPath_def descriptionSelector_def
        exampleProperty_def childSortOrder_def compareNodes_def toNumber_def sign_def)

text \<open>
  C9, as the code has it. getPropertyTree is a function of the list of properties (and of
  the flag, the host's comparison of strings and the host's sort). When every property
  has a finite number as sort order, the comparison of descriptions has antisymmetric
  signs and a transitive \<open>\<le>\<close>, and the sort of the host conforms to the language, then
  the nodes returned, and the children of every node below them, are in ascending sort
  order with ties broken by the comparison of the descriptions; sorting only permutes the
  children. For the two properties of the example the children of node A are Y, then X.
\<close>

theorem getPropertyTree_sorted:
  assumes "\<forall>p\<in>set properties. \<exists>r. sortOrder p = Some (Finite r)"
    and "\<forall>x y. sgn (localeCompare x y) = - sgn (localeCompare y x)"
    and "\<forall>x y z. localeCompare x y \<le> 0 \<and> localeCompare y z \<le> 0 \<longrightarrow> localeCompare x z \<le> 0"
    and "conforming sorter"
  shows "sorted_wrt (siblingOrder localeCompare) (getPropertyTree sorter localeCompare properties short)
    \<and> list_all (sortedSiblings localeCompare) (getPropertyTree sorter localeCompare properties short)
    \<and> mset (getPropertyTree sorter localeCompare properties short)
        = image_mset (sortTree sorter localeCompare) (mset (items (buildTree short properties)))
    \<and> map (\<lambda>n. (node_description n, map node_description (items n)))
          (getPropertyTree sorter localeCompare
             [exampleProperty ''X'' (Some (Finite 2)), exampleProperty ''Y'' (Some (Finite 1))] False)
        = [(''A'', [''Y'', ''X''])]"
proof -
  let ?example = "[exampleProperty ''X'' (Some (Finite 2)), exampleProperty ''Y'' (Some (Finite 1))]"
  have fin: "\<forall>p\<in>set properties. finiteOrder (sortOrder p)"
    using assms(1) by (simp add: finiteOrder_def)
  have num: "numericTree (buildTree short properties)"
    using fin by (rule buildTree_numeric)
  have same: "sortTree sorter localeCompare n = sortTree stableSort localeCompare n"
    if "numericTree n" for n
    using sortTree_conforming [OF assms(4,2,3) that] .
  have tree: "getPropertyTree sorter localeCompare properties short
                = items (sortTree stableSort localeCompare (buildTree short properties))"
    by (simp add: getPropertyTree_def same [OF num])
  have "sortedSiblings localeCompare (sortTree stableSort localeCompare (buildTree short properties))"
    using sortTree_sorted [OF assms(2,3) num] .
  then have a: "sorted_wrt (siblingOrder localeCompare)
                  (getPropertyTree sorter localeCompare properties short)
    \<and> list_all (sortedSiblings localeCompare) (getPropertyTree sorter localeCompare properties short)"
    unfolding tree
    by (cases "sortTree stableSort localeCompare (buildTree short properties)") simp
  have kids: "numericTree c" if "c \<in> set (items (buildTree short properties))" for c
    using num that by (cases "buildTree short properties") (simp add: list_all_iff)
  have "image_mset (sortTree sorter localeCompare) (mset (items (buildTree short properties)))
          = image_mset (sortTree stableSort localeCompare) (mset (items (buildTree short properties)))"
    by (rule image_mset_cong) (simp add: same kids)
  then have b: "mset (getPropertyTree sorter localeCompare properties short)
        = image_mset (sortTree sorter localeCompare) (mset (items (buildTree short properties)))"
    unfolding tree by (simp add: sortTree_items)
  have "\<forall>p\<in>set ?example. finiteOrder (sortOrder p)"
    by (simp add: exampleProperty_def finiteOrder_def)
  then have "numericTree (buildTree False ?example)"
    by (rule buildTree_numeric)
  then have "getPropertyTree sorter localeCompare ?example False
               = getPropertyTree stableSort localeCompare ?example False"
    by (simp add: getPropertyTree_def same)
  then have c: "map (\<lambda>n. (node_description n, map node_description (items n)))
          (getPropertyTree sorter localeCompare ?example False)
        = [(''A'', [''Y'', ''X''])]"
    by (simp add: getPropertyTree_example)
  show ?thesis using a b c by blast
qed

definition lexCompare :: "string \<Rightarrow> string \<Rightarrow> int" where
  "lexCompare x y = (if x < y then - 1 else if x = y then 0 else 1)"

definition examplePropertyIn :: "string list \<Rightarrow> string \<Rightarrow> number option \<Rightarrow> property" where
  "examplePropertyIn cs d order = (exampleProperty d order)\<lparr>category := Some cs\<rparr>"

theorem getPropertyTree_sorted_witness:
  "sorted_wrt (siblingOrder lexCompare)
     (getPropertyTree stableSort lexCompare
        [examplePropertyIn [''B''] ''Q'' (Some (Finite 1)), exampleProperty ''X'' (Some (Finite 1)),
         exampleProperty ''C'' (Some (Finite 1)), examplePropertyIn [] ''A'' (Some (Finite 1))] False)
   \<and> map (\<lambda>n. (node_description n, map node_description (items n)))
       (getPropertyTree stableSort lexCompare
        [examplePropertyIn [''B''] ''Q'' (Some (Finite 1)), exampleProperty ''X'' (Some (Finite 1)),
         exampleProperty ''C'' (Some (Finite 1)), examplePropertyIn [] ''A'' (Some (Finite 1))] False)
     = [(''A'', [''C'', ''X'']), (''B'', [''Q''])]"
proof -
  let ?ps = "[examplePropertyIn [''B''] ''Q'' (Some (Finite 1)), exampleProperty ''X'' (Some (Finite 1)),
         exampleProperty ''C'' (Some (Finite 1)), examplePropertyIn [] ''A'' (Some (Finite 1))]"
  have n: "\<forall>p\<in>set ?ps. \<exists>r. sortOrder p = Some (Finite r)"
    by (simp add: examplePropertyIn_def exampleProperty_def)
  have t: "\<forall>x y. sgn (lexCompare x y) = - sgn (lexCompare y x)"
    by (auto simp: lexCompare_def)
  have tr: "\<forall>x y z. lexCompare x y \<le> 0 \<and> lexCompare y z \<le> 0 \<longrightarrow> lexCompare x z \<le> 0"
    by (auto simp: lexCompare_def split: if_splits)
  have "sorted_wrt (siblingOrder lexCompare) (getPropertyTree stableSort lexCompare ?ps False)"
    using getPropertyTree_sorted [OF n t tr conforming_stableSort, of False] by blast
  moreover have "map (\<lambda>n. (node_description n, map node_description (items n)))
       (getPropertyTree stableSort lexCompare ?ps False)
     = [(''A'', [''C'', ''X'']), (''B'', [''Q''])]"
    by (simp add: getPropertyTree_def buildTree_def descriptionPath_def descriptionSelector_def
        exampleProperty_def examplePropertyIn_def childSortOrder_def compareNodes_def
        toNumber_def sign_def lexCompare_def)
  ultimately show ?thesis by blast
qed

subsection \<open>Properties without a finite sort order\<close>

text \<open>
  Two properties under A, X before B, neither with a sort order: every difference is
  \<^verbatim>\<open>NaN\<close>, which the sort reads as equal and which never reaches the comparison of the
  descriptions, so the stable sort leaves X before B. The same happens when both sort
  orders are \<^verbatim>\<open>Infinity\<close>.
\<close>

theorem getPropertyTree_unsorted_counterexample:
  "map (\<lambda>n. (node_description n, node_sortOrder n,
               map (\<lambda>c. (node_description c, node_sortOrder c)) (items n)))
     (getPropertyTree stableSort lexCompare
        [exampleProperty ''X'' None, exampleProperty ''B'' None] False)
     = [(''A'', None, [(''X'', None), (''B'', None)])]
   \<and> map (\<lambda>n. (node_description n, map node_description (items n)))
       (getPropertyTree stableSort lexCompare
          [exampleProperty ''X'' (Some PositiveInfinity),
           exampleProperty ''B'' (Some PositiveInfinity)] False)
     = [(''A'', [''X'', ''B''])]
   \<and> lexCompare ''X'' ''B'' = 1
   \<and> consistent (\<lambda>i j. compareNodes lexCompare
                    ([Node ''X'' None [] None, Node ''B'' None [] None] ! i)
                    ([Node ''X'' None [] None, Node ''B'' None [] None] ! j)) 2"
proof -
  have a: "map (\<lambda>n. (node_description n, node_sortOrder n,
               map (\<lambda>c. (node_description c, node_sortOrder c)) (items n)))
     (getPropertyTree stableSort lexCompare
        [exampleProperty ''X'' None, exampleProperty ''B'' None] False)
     = [(''A'', None, [(''X'', None), (''B'', None)])]"
    by (simp add: getPropertyTree_def buildTree_def descriptionPath_def descriptionSelector_def
        exampleProperty_def childSortOrder_def compareNodes_def toNumber_def sign_def)
  have b: "map (\<lambda>n. (node_description n, map node_description (items n)))
       (getPropertyTree stableSort lexCompare
          [exampleProperty ''X'' (Some PositiveInfinity),
           exampleProperty ''B'' (Some PositiveInfinity)] False)
     = [(''A'', [''X'', ''B''])]"
    by (simp add: getPropertyTree_def buildTree_def descriptionPath_def descriptionSelector_def
        exampleProperty_def childSortOrder_def compareNodes_def toNumber_def sign_def)
  have c: "lexCompare ''X'' ''B'' = 1"
    by (simp add: lexCompare_def)
  have d: "consistent (\<lambda>i j. compareNodes lexCompare
                    ([Node ''X'' None [] None, Node ''B'' None [] None] ! i)
                    ([Node ''X'' None [] None, Node ''B'' None [] None] ! j)) 2"
  proof -
    have "compareNodes lexCompare
            ([Node ''X'' None [] None, Node ''B'' None [] None] ! i)
            ([Node ''X'' None [] None, Node ''B'' None [] None] ! j) = NaN"
      if "i < 2" "j < 2" for i j
      using that by (auto simp: less_2_cases_iff compareNodes_def toNumber_def)
    then show ?thesis by (simp add: consistent_def sign_def)
  qed
  show ?thesis using a b c d by blast
qed

section \<open>Subscriptions\<close>

text \<open>
  Modelled from the spec: the three operations of an \<^verbatim>\<open>Event\<close>, the dispatch object, whose
  source is in \<^verbatim>\<open>@barchart/common-js\<close>: to register appends the handler to the observers,
  to dispose the registration removes its first occurrence, to fire invokes the observers
  in order with the data. A callback is
  opaque: invoking it is recorded, and it is taken not to call back into the manager.
\<close>

definition register :: "callback \<Rightarrow> callback list \<Rightarrow> callback list" where
  "register handler observers = observers @ [handler]"


definition fire :: "callback list \<Rightarrow> alert \<Rightarrow> manager \<Rightarrow> manager" where
  "fire observers data m = m\<lparr>effects := effects m @ map (\<lambda>observer. Invoke observer data) observers\<rparr>"

text \<open>
  The first level of a subscription map holds the second-level objects, the second level
  holds (the numbers of) the entries. A second-level object assigned as prototype of the
  first level shadows \<^verbatim>\<open>hasOwnProperty\<close> when it has an own property of that name; an entry
  has none, so as prototype of a second-level object it shadows nothing.
\<close>

definition shadowsHasOwnProperty :: "nat object \<Rightarrow> bool" where
  "shadowsHasOwnProperty systemMap = (own systemMap ''hasOwnProperty'' \<noteq> None)"

text \<open>
  The \<^verbatim>\<open>Disposable\<close> that \<^verbatim>\<open>subscribeAlerts\<close> returns: its action closes over the entry
  (\<^verbatim>\<open>subscriptionData\<close>, here its number) and over the four registrations.
\<close>

record subscription =
  subscription_data :: nat
  createRegistration :: callback
  changeRegistration :: callback
  deleteRegistration :: callback
  triggerRegistration :: callback

text \<open>
  Lines 206 to 220 of \<^verbatim>\<open>subscribeAlerts\<close>: the two tests, each followed by the creation of
  what is missing, and the read of the entry. It throws where a \<^verbatim>\<open>hasOwnProperty\<close> it calls
  is no longer the method. The second-level object is changed in place, which is written
  here as putting it back where it was read. A new entry gets the number \<open>allocated m\<close>.
  The result is the manager with the objects created and the number of the entry read.
\<close>

definition entryFor :: "manager \<Rightarrow> string \<Rightarrow> string \<Rightarrow> error + (manager \<times> nat)" where
  "entryFor m userId alertSystem =
     (if \<not> callsHasOwnProperty shadowsHasOwnProperty (alertSubscriptionMap m) then Inl TypeError
      else
        (let withUser =
               (if \<not> hasOwnProperty (alertSubscriptionMap m) userId
                then assign (alertSubscriptionMap m) userId emptyObject
                else alertSubscriptionMap m)
         in case getProperty withUser userId of
              None \<Rightarrow> Inl TypeError
            | Some systemMap \<Rightarrow>
                if \<not> callsHasOwnProperty (\<lambda>_. False) systemMap then Inl TypeError
                else
                  (let created = (\<not> hasOwnProperty systemMap alertSystem);
                       withSystem =
                         (if created then assign systemMap alertSystem (allocated m)
                          else systemMap)
                   in case getProperty withSystem alertSystem of
                        None \<Rightarrow> Inl TypeError
                      | Some entry \<Rightarrow>
                          Inr (m\<lparr>alertSubscriptionMap := assign withUser userId withSystem,
                                 entries :=
                                   (if created then (entries m)(allocated m := newSubscriptionData)
                                    else entries m),
                                 allocated := (if created then Suc (allocated m) else allocated m)\<rparr>,
                               entry))))"

text \<open>
  \<^verbatim>\<open>subscribeAlerts(query, changeCallback, deleteCallback, createCallback, triggerCallback)\<close>.
  It throws where \<^verbatim>\<open>checkStatus\<close> or the validator \<open>forUser\<close> throws, and where the lookup
  of the entry does; the four \<^verbatim>\<open>assert.argumentIsRequired\<close> hold of every callback. The
  handle the adapter returns is numbered \<open>bindings m\<close>.
\<close>

definition subscribeAlerts ::
  "(query \<Rightarrow> bool) \<Rightarrow> manager \<Rightarrow> query \<Rightarrow> callback \<Rightarrow> callback \<Rightarrow> callback \<Rightarrow> callback
     \<Rightarrow> error + (manager \<times> subscription)" where
  "subscribeAlerts forUser m q changeCallback deleteCallback createCallback triggerCallback =
     (case checkStatus m ''subscribe alerts'' of
        Inl e \<Rightarrow> Inl e
      | Inr _ \<Rightarrow>
          if \<not> forUser q then Inl ValidationError
          else
            (case entryFor m (propertyKey (query_user_id q)) (propertyKey (query_alert_system q)) of
               Inl e \<Rightarrow> Inl e
             | Inr (m1, entry) \<Rightarrow>
                 (let subscriptionData = entries m1 entry;
                      subscribing = (subscribers subscriptionData = 0);
                      bound =
                        (if subscribing
                         then subscriptionData\<lparr>implementationBinding := Some (bindings m1)\<rparr>
                         else subscriptionData);
                      registered = bound
                        \<lparr>subscribers := subscribers bound + 1,
                         createEvent := register createCallback (createEvent bound),
                         changeEvent := register changeCallback (changeEvent bound),
                         deleteEvent := register deleteCallback (deleteEvent bound),
                         triggerEvent := register triggerCallback (triggerEvent bound)\<rparr>
                  in Inr
                       (m1\<lparr>entries := (entries m1)(entry := registered),
                            bindings := (if subscribing then Suc (bindings m1) else bindings m1),
                            effects := effects m1
                              @ (if subscribing then [AdapterSubscribeAlerts q (bindings m1)]
                                 else [])\<rparr>,
                        \<lparr>subscription_data = entry,
                         createRegistration = createCallback,
                         changeRegistration = changeCallback,
                         deleteRegistration = deleteCallback,
                         triggerRegistration = triggerCallback\<rparr>))))"


text \<open>
  \<^verbatim>\<open>dispose()\<close> of the manager: the base class runs \<^verbatim>\<open>_onDispose\<close> once, which disposes
  the adapter and sets it to \<^verbatim>\<open>null\<close>, and sets \<^verbatim>\<open>_alertSubscriptionMap\<close> to \<^verbatim>\<open>null\<close>.
\<close>

definition dispose :: "manager \<Rightarrow> manager" where
  "dispose m =
     (if isDisposed m then m
      else m\<lparr>isDisposed := True, adapter := None,
             effects := effects m @ (case adapter m of None \<Rightarrow> [] | Some a \<Rightarrow> [AdapterDispose a])\<rparr>)"

text \<open>
  \<^verbatim>\<open>getMutationEvents(map, alert)\<close>, which gives the entry (its number) or \<^verbatim>\<open>null\<close> (\<open>None\<close>)
  and throws where a \<^verbatim>\<open>hasOwnProperty\<close> it calls is no longer the method; and the four
  handlers the adapter calls with a pushed alert. A handler returns at once on a falsy
  payload (\<open>None\<close>); on a disposed manager \<^verbatim>\<open>_alertSubscriptionMap\<close> is \<^verbatim>\<open>null\<close> and
  \<^verbatim>\<open>map.hasOwnProperty\<close> throws. \<^verbatim>\<open>cloneAlert\<close> returns its argument.
\<close>

definition getMutationEvents :: "nat object object \<Rightarrow> alert \<Rightarrow> error + nat option" where
  "getMutationEvents subscriptionMap a =
     (let userId = propertyKey (user_id a); alertSystem = propertyKey (alert_system a)
      in if \<not> callsHasOwnProperty shadowsHasOwnProperty subscriptionMap then Inl TypeError
         else if hasOwnProperty subscriptionMap userId
         then (case getProperty subscriptionMap userId of
                 None \<Rightarrow> Inl TypeError
               | Some systemMap \<Rightarrow>
                   if \<not> callsHasOwnProperty (\<lambda>_. False) systemMap then Inl TypeError
                   else if hasOwnProperty systemMap alertSystem
                   then Inr (getProperty systemMap alertSystem)
                   else Inr None)
         else Inr None)"

definition cloneAlert :: "alert \<Rightarrow> alert" where
  "cloneAlert a = a"

definition onAlertCreated :: "manager \<Rightarrow> alert option \<Rightarrow> error + manager" where
  "onAlertCreated m payload =
     (case payload of
        None \<Rightarrow> Inr m
      | Some a \<Rightarrow>
          if isDisposed m then Inl TypeError
          else (case getMutationEvents (alertSubscriptionMap m) a of
                  Inl e \<Rightarrow> Inl e
                | Inr None \<Rightarrow> Inr m
                | Inr (Some data) \<Rightarrow> Inr (fire (createEvent (entries m data)) (cloneAlert a) m)))"

definition onAlertMutated :: "manager \<Rightarrow> alert option \<Rightarrow> error + manager" where
  "onAlertMutated m payload =
     (case payload of
        None \<Rightarrow> Inr m
      | Some a \<Rightarrow>
          if isDisposed m then Inl TypeError
          else (case getMutationEvents (alertSubscriptionMap m) (cloneAlert a) of
                  Inl e \<Rightarrow> Inl e
                | Inr None \<Rightarrow> Inr m
                | Inr (Some data) \<Rightarrow> Inr (fire (changeEvent (entries m data)) a m)))"

definition onAlertDeleted :: "manager \<Rightarrow> alert option \<Rightarrow> error + manager" where
  "onAlertDeleted m payload =
     (case payload of
        None \<Rightarrow> Inr m
      | Some a \<Rightarrow>
          if isDisposed m then Inl TypeError
          else (case getMutationEvents (alertSubscriptionMap m) (cloneAlert a) of
                  Inl e \<Rightarrow> Inl e
                | Inr None \<Rightarrow> Inr m
                | Inr (Some data) \<Rightarrow> Inr (fire (deleteEvent (entries m data)) a m)))"

definition onAlertTriggered :: "manager \<Rightarrow> alert option \<Rightarrow> error + manager" where
  "onAlertTriggered m payload =
     (case payload of
        None \<Rightarrow> Inr m
      | Some a \<Rightarrow>
          if isDisposed m then Inl TypeError
          else (case getMutationEvents (alertSubscriptionMap m) (cloneAlert a) of
                  Inl e \<Rightarrow> Inl e
                | Inr None \<Rightarrow> Inr m
                | Inr (Some data) \<Rightarrow> Inr (fire (triggerEvent (entries m data)) a m)))"




section \<open>Dispatch of a pushed alert\<close>

text \<open>
  The entry held under a key: the one that is found through own properties, as
  \<^verbatim>\<open>getMutationEvents\<close> looks for it. The \<^verbatim>\<open>hasOwnProperty\<close> methods are intact for a user
  when the two calls of that lookup reach the method of \<^verbatim>\<open>Object.prototype\<close>. The
  callbacks registered under a key for one kind of notification are the observers of
  the event of the entry held under the key, in order.
\<close>

definition entryOf :: "nat object object \<Rightarrow> string \<Rightarrow> string \<Rightarrow> nat option" where
  "entryOf subscriptionMap userId alertSystem =
     (if hasOwnProperty subscriptionMap userId
      then (case getProperty subscriptionMap userId of
              None \<Rightarrow> None
            | Some systemMap \<Rightarrow>
                if hasOwnProperty systemMap alertSystem then getProperty systemMap alertSystem
                else None)
      else None)"

definition methodsIntact :: "nat object object \<Rightarrow> string \<Rightarrow> bool" where
  "methodsIntact subscriptionMap userId =
     (callsHasOwnProperty shadowsHasOwnProperty subscriptionMap
      \<and> (if hasOwnProperty subscriptionMap userId
         then (case getProperty subscriptionMap userId of
                 None \<Rightarrow> False
               | Some systemMap \<Rightarrow> callsHasOwnProperty (\<lambda>_. False) systemMap)
         else True))"

definition registeredCallbacks ::
  "manager \<Rightarrow> string \<Rightarrow> string \<Rightarrow> (subscriptionData \<Rightarrow> callback list) \<Rightarrow> callback list" where
  "registeredCallbacks m userId alertSystem event =
     (case entryOf (alertSubscriptionMap m) userId alertSystem of
        None \<Rightarrow> []
      | Some entry \<Rightarrow> event (entries m entry))"

definition delivered :: "manager \<Rightarrow> alert \<Rightarrow> callback list \<Rightarrow> manager" where
  "delivered m a callbacks = m\<lparr>effects := effects m @ map (\<lambda>callback. Invoke callback a) callbacks\<rparr>"

text \<open>
  The four kinds of notification, each with its handler, its event in an entry and its
  callback in a request; the key of a request is that of its query.
\<close>

datatype kind = Created | Mutated | Deleted | Triggered

definition handler :: "kind \<Rightarrow> manager \<Rightarrow> alert option \<Rightarrow> error + manager" where
  "handler k =
     (case k of Created \<Rightarrow> onAlertCreated | Mutated \<Rightarrow> onAlertMutated
      | Deleted \<Rightarrow> onAlertDeleted | Triggered \<Rightarrow> onAlertTriggered)"




lemma getMutationEvents_eq:
  "getMutationEvents sm a
     = (if methodsIntact sm (propertyKey (user_id a))
        then Inr (entryOf sm (propertyKey (user_id a)) (propertyKey (alert_system a)))
        else Inl TypeError)"
  by (simp add: getMutationEvents_def methodsIntact_def entryOf_def Let_def split: option.splits)

lemma delivered_nothing [simp]: "delivered m a [] = m"
  by (simp add: delivered_def)






lemma handler_throws:
  assumes "isDisposed m \<or> \<not> methodsIntact (alertSubscriptionMap m) (propertyKey (user_id a))"
  shows "handler k m (Some a) = Inl TypeError"
  using assms
  by (cases k)
    (auto simp: handler_def onAlertCreated_def onAlertMutated_def onAlertDeleted_def
       onAlertTriggered_def getMutationEvents_eq cloneAlert_def)

lemma checkStatus_ok: "checkStatus m operation = Inr () \<longleftrightarrow> \<not> isDisposed m \<and> adapter m \<noteq> None"
  by (auto simp: checkStatus_def checkDispose_def)

text \<open>What the lookup of lines 206 to 220 gives, and what it leaves.\<close>

lemma hasOwnProperty_assign [simp]:
  "hasOwnProperty (assign obj key v) key' \<longleftrightarrow>
     (key' = key \<and> key \<noteq> ''__proto__'') \<or> hasOwnProperty obj key'"
  by (auto simp: hasOwnProperty_def assign_def)

lemma getProperty_assign [simp]:
  "getProperty (assign obj key v) key' = (if key' = key then Some v else getProperty obj key')"
  by (auto simp: getProperty_def assign_def)

lemma hasOwnProperty_emptyObject [simp]: "\<not> hasOwnProperty emptyObject key"
  by (simp add: hasOwnProperty_def emptyObject_def)

lemma getProperty_emptyObject [simp]: "getProperty emptyObject key = None"
  by (simp add: getProperty_def emptyObject_def)

lemma callsHasOwnProperty_emptyObject [simp]: "callsHasOwnProperty shadows emptyObject"
  by (simp add: callsHasOwnProperty_def emptyObject_def)

lemma hasOwnProperty_found:
  "hasOwnProperty obj key \<Longrightarrow> \<exists>v. getProperty obj key = Some v"
  by (auto simp: hasOwnProperty_def getProperty_def)

lemma entryOf_emptyObject [simp]: "entryOf emptyObject u s = None"
  by (simp add: entryOf_def)


lemma entryFor_result:
  assumes "entryFor m u s = Inr (m1, entry)"
  shows "methodsIntact (alertSubscriptionMap m) u"
    and "entry = (case entryOf (alertSubscriptionMap m) u s of None \<Rightarrow> allocated m | Some e \<Rightarrow> e)"
    and "entries m1
           = (case entryOf (alertSubscriptionMap m) u s of
                None \<Rightarrow> (entries m)(allocated m := newSubscriptionData)
              | Some e \<Rightarrow> entries m)"
    and "allocated m1
           = (case entryOf (alertSubscriptionMap m) u s of
                None \<Rightarrow> Suc (allocated m) | Some e \<Rightarrow> allocated m)"
    and "entryOf (alertSubscriptionMap m1) u' s'
           = (if u' = u \<and> s' = s \<and> u \<noteq> ''__proto__'' \<and> s \<noteq> ''__proto__'' then Some entry
              else entryOf (alertSubscriptionMap m) u' s')"
    and "isDisposed m1 = isDisposed m" and "adapter m1 = adapter m"
    and "effects m1 = effects m" and "bindings m1 = bindings m"
proof -
  let ?sm = "alertSubscriptionMap m"
  have call: "callsHasOwnProperty shadowsHasOwnProperty ?sm"
    using assms by (auto simp: entryFor_def split: if_splits)
  have all: "methodsIntact ?sm u \<and> entry = (case entryOf ?sm u s of None \<Rightarrow> allocated m | Some e \<Rightarrow> e)
      \<and> entries m1 = (case entryOf ?sm u s of
                None \<Rightarrow> (entries m)(allocated m := newSubscriptionData) | Some e \<Rightarrow> entries m)
      \<and> allocated m1 = (case entryOf ?sm u s of None \<Rightarrow> Suc (allocated m) | Some e \<Rightarrow> allocated m)
      \<and> entryOf (alertSubscriptionMap m1) u' s'
           = (if u' = u \<and> s' = s \<and> u \<noteq> ''__proto__'' \<and> s \<noteq> ''__proto__'' then Some entry
              else entryOf ?sm u' s')
      \<and> isDisposed m1 = isDisposed m \<and> adapter m1 = adapter m
      \<and> effects m1 = effects m \<and> bindings m1 = bindings m"
  proof (cases "hasOwnProperty ?sm u")
    case True
    then obtain sm where sm: "getProperty ?sm u = Some sm"
      using hasOwnProperty_found by blast
    have c: "callsHasOwnProperty (\<lambda>_. False) sm"
      using assms call True sm by (auto simp: entryFor_def Let_def split: if_splits)
    have up: "u \<noteq> ''__proto__''" using True by (simp add: hasOwnProperty_def)
    show ?thesis
    proof (cases "hasOwnProperty sm s")
      case known: True
      then obtain e where e: "getProperty sm s = Some e"
        using hasOwnProperty_found by blast
      have sp: "s \<noteq> ''__proto__''" using known by (simp add: hasOwnProperty_def)
      have r: "m1 = m\<lparr>alertSubscriptionMap := assign ?sm u sm\<rparr>" "entry = e"
        using assms call True sm c known e by (auto simp: entryFor_def Let_def)
      have eo: "entryOf ?sm u s = Some e"
        using True sm known e by (simp add: entryOf_def)
      have other: "entryOf (assign ?sm u sm) u' s' = entryOf ?sm u' s'"
        using True sm up by (auto simp: entryOf_def)
      show ?thesis
        using r eo other call True sm c up sp by (auto simp: methodsIntact_def)
    next
      case False
      have r: "m1 = m\<lparr>alertSubscriptionMap := assign ?sm u (assign sm s (allocated m)),
                       entries := (entries m)(allocated m := newSubscriptionData),
                       allocated := Suc (allocated m)\<rparr>" "entry = allocated m"
        using assms call True sm c False by (auto simp: entryFor_def Let_def)
      have eo: "entryOf ?sm u s = None"
        using True sm False by (simp add: entryOf_def)
      have other: "entryOf (assign ?sm u (assign sm s (allocated m))) u' s'
                     = (if u' = u \<and> s' = s \<and> s \<noteq> ''__proto__'' then Some (allocated m)
                        else entryOf ?sm u' s')"
        using True sm up False by (auto simp: entryOf_def)
      show ?thesis
        using r eo other call True sm c up by (auto simp: methodsIntact_def)
    qed
  next
    case False
    have c: "callsHasOwnProperty (\<lambda>_. False) (emptyObject :: nat object)"
      by simp
    have r: "m1 = m\<lparr>alertSubscriptionMap :=
                       assign (assign ?sm u emptyObject) u (assign emptyObject s (allocated m)),
                     entries := (entries m)(allocated m := newSubscriptionData),
                     allocated := Suc (allocated m)\<rparr>" "entry = allocated m"
      using assms call False c by (auto simp: entryFor_def Let_def)
    have eo: "entryOf ?sm u s = None"
      using False by (simp add: entryOf_def)
    have other: "entryOf (assign (assign ?sm u emptyObject) u (assign emptyObject s (allocated m))) u' s'
                   = (if u' = u \<and> s' = s \<and> u \<noteq> ''__proto__'' \<and> s \<noteq> ''__proto__''
                      then Some (allocated m) else entryOf ?sm u' s')"
      using False by (auto simp: entryOf_def)
    show ?thesis
      using r eo other call False by (auto simp: methodsIntact_def)
  qed
  from all show "methodsIntact (alertSubscriptionMap m) u" by blast
  from all show "entry = (case entryOf (alertSubscriptionMap m) u s of None \<Rightarrow> allocated m | Some e \<Rightarrow> e)"
    by blast
  from all show "entries m1
           = (case entryOf (alertSubscriptionMap m) u s of
                None \<Rightarrow> (entries m)(allocated m := newSubscriptionData)
              | Some e \<Rightarrow> entries m)" by blast
  from all show "allocated m1
           = (case entryOf (alertSubscriptionMap m) u s of
                None \<Rightarrow> Suc (allocated m) | Some e \<Rightarrow> allocated m)" by blast
  from all show "entryOf (alertSubscriptionMap m1) u' s'
           = (if u' = u \<and> s' = s \<and> u \<noteq> ''__proto__'' \<and> s \<noteq> ''__proto__'' then Some entry
              else entryOf (alertSubscriptionMap m) u' s')" by blast
  from all show "isDisposed m1 = isDisposed m" "adapter m1 = adapter m"
    "effects m1 = effects m" "bindings m1 = bindings m" by blast+
qed


text \<open>
  The entry a subscription under a key starts from, and its number: the one held under
  the key, or a new one. And the entry as the subscription leaves it.
\<close>

definition numberAt :: "manager \<Rightarrow> string \<Rightarrow> string \<Rightarrow> nat" where
  "numberAt m u s = (case entryOf (alertSubscriptionMap m) u s of None \<Rightarrow> allocated m | Some e \<Rightarrow> e)"

definition dataAt :: "manager \<Rightarrow> string \<Rightarrow> string \<Rightarrow> subscriptionData" where
  "dataAt m u s =
     (case entryOf (alertSubscriptionMap m) u s of
        None \<Rightarrow> newSubscriptionData
      | Some e \<Rightarrow> entries m e)"

definition subscribed ::
  "nat \<Rightarrow> callback \<Rightarrow> callback \<Rightarrow> callback \<Rightarrow> callback \<Rightarrow> subscriptionData \<Rightarrow> subscriptionData" where
  "subscribed binding chg del cre trg d =
     d\<lparr>implementationBinding := (if subscribers d = 0 then Some binding else implementationBinding d),
       subscribers := subscribers d + 1,
       createEvent := createEvent d @ [cre],
       changeEvent := changeEvent d @ [chg],
       deleteEvent := deleteEvent d @ [del],
       triggerEvent := triggerEvent d @ [trg]\<rparr>"

lemma subscribeAlerts_result:
  assumes "subscribeAlerts forUser m0 q chg del cre trg = Inr (m, h)"
  shows "\<not> isDisposed m0" and "adapter m0 \<noteq> None" and "forUser q"
    and "methodsIntact (alertSubscriptionMap m0) (propertyKey (query_user_id q))"
    and "isDisposed m = isDisposed m0" and "adapter m = adapter m0"
    and "h = \<lparr>subscription_data
                 = numberAt m0 (propertyKey (query_user_id q)) (propertyKey (query_alert_system q)),
              createRegistration = cre, changeRegistration = chg,
              deleteRegistration = del, triggerRegistration = trg\<rparr>"
    and "entryOf (alertSubscriptionMap m) u' s'
           = (if u' = propertyKey (query_user_id q) \<and> s' = propertyKey (query_alert_system q)
                 \<and> propertyKey (query_user_id q) \<noteq> ''__proto__''
                 \<and> propertyKey (query_alert_system q) \<noteq> ''__proto__''
              then Some (numberAt m0 (propertyKey (query_user_id q)) (propertyKey (query_alert_system q)))
              else entryOf (alertSubscriptionMap m0) u' s')"
    and "entries m
           = (entries m0)
               (numberAt m0 (propertyKey (query_user_id q)) (propertyKey (query_alert_system q))
                  := subscribed (bindings m0) chg del cre trg
                       (dataAt m0 (propertyKey (query_user_id q)) (propertyKey (query_alert_system q))))"
    and "allocated m
           = (case entryOf (alertSubscriptionMap m0) (propertyKey (query_user_id q))
                     (propertyKey (query_alert_system q)) of
                None \<Rightarrow> Suc (allocated m0) | Some e \<Rightarrow> allocated m0)"
    and "bindings m
           = (if subscribers (dataAt m0 (propertyKey (query_user_id q)) (propertyKey (query_alert_system q))) = 0
              then Suc (bindings m0) else bindings m0)"
    and "effects m
           = effects m0
             @ (if subscribers (dataAt m0 (propertyKey (query_user_id q)) (propertyKey (query_alert_system q))) = 0
                then [AdapterSubscribeAlerts q (bindings m0)] else [])"
proof -
  let ?u = "propertyKey (query_user_id q)" and ?s = "propertyKey (query_alert_system q)"
  have st: "checkStatus m0 ''subscribe alerts'' = Inr ()" and v: "forUser q"
    using assms by (auto simp: subscribeAlerts_def split: sum.splits if_splits)
  obtain m1 entry where ef: "entryFor m0 ?u ?s = Inr (m1, entry)"
    using assms st v by (auto simp: subscribeAlerts_def split: sum.splits)
  note r = entryFor_result [OF ef]
  have entry: "entry = numberAt m0 ?u ?s" using r(2) by (simp add: numberAt_def)
  have d: "entries m1 entry = dataAt m0 ?u ?s"
    unfolding r(3) entry by (simp add: numberAt_def dataAt_def split: option.splits)
  have over: "(entries m1)(entry := x) = (entries m0)(entry := x)" for x
    unfolding r(3) entry by (simp add: numberAt_def split: option.splits)
  let ?d = "dataAt m0 ?u ?s"
  have res: "m = m1\<lparr>entries := (entries m0)(entry := subscribed (bindings m0) chg del cre trg ?d),
                    bindings := (if subscribers ?d = 0 then Suc (bindings m0) else bindings m0),
                    effects := effects m0
                      @ (if subscribers ?d = 0 then [AdapterSubscribeAlerts q (bindings m0)] else [])\<rparr>"
    and hd: "h = \<lparr>subscription_data = entry, createRegistration = cre, changeRegistration = chg,
                  deleteRegistration = del, triggerRegistration = trg\<rparr>"
  proof -
    have "subscribeAlerts forUser m0 q chg del cre trg = Inr
           (m1\<lparr>entries := (entries m0)(entry := subscribed (bindings m0) chg del cre trg ?d),
                bindings := (if subscribers ?d = 0 then Suc (bindings m0) else bindings m0),
                effects := effects m0
                  @ (if subscribers ?d = 0 then [AdapterSubscribeAlerts q (bindings m0)] else [])\<rparr>,
            \<lparr>subscription_data = entry, createRegistration = cre, changeRegistration = chg,
             deleteRegistration = del, triggerRegistration = trg\<rparr>)"
      by (cases "subscribers ?d = 0")
        (simp_all add: subscribeAlerts_def st v ef Let_def d r(8,9) over subscribed_def
           register_def)
    with assms have "(m, h) =
           (m1\<lparr>entries := (entries m0)(entry := subscribed (bindings m0) chg del cre trg ?d),
                bindings := (if subscribers ?d = 0 then Suc (bindings m0) else bindings m0),
                effects := effects m0
                  @ (if subscribers ?d = 0 then [AdapterSubscribeAlerts q (bindings m0)] else [])\<rparr>,
            \<lparr>subscription_data = entry, createRegistration = cre, changeRegistration = chg,
             deleteRegistration = del, triggerRegistration = trg\<rparr>)"
      by simp
    then show "m = m1\<lparr>entries := (entries m0)(entry := subscribed (bindings m0) chg del cre trg ?d),
                    bindings := (if subscribers ?d = 0 then Suc (bindings m0) else bindings m0),
                    effects := effects m0
                      @ (if subscribers ?d = 0 then [AdapterSubscribeAlerts q (bindings m0)] else [])\<rparr>"
      and "h = \<lparr>subscription_data = entry, createRegistration = cre, changeRegistration = chg,
                  deleteRegistration = del, triggerRegistration = trg\<rparr>"
      by simp_all
  qed
  show "\<not> isDisposed m0" "adapter m0 \<noteq> None"
    using st by (simp_all add: checkStatus_ok)
  show "forUser q" by (rule v)
  show "methodsIntact (alertSubscriptionMap m0) ?u" by (rule r(1))
  show "isDisposed m = isDisposed m0" "adapter m = adapter m0"
    unfolding res using r(6,7) by simp_all
  show "h = \<lparr>subscription_data = numberAt m0 ?u ?s, createRegistration = cre,
             changeRegistration = chg, deleteRegistration = del, triggerRegistration = trg\<rparr>"
    using hd entry by simp
  show "entryOf (alertSubscriptionMap m) u' s'
           = (if u' = ?u \<and> s' = ?s \<and> ?u \<noteq> ''__proto__'' \<and> ?s \<noteq> ''__proto__''
              then Some (numberAt m0 ?u ?s) else entryOf (alertSubscriptionMap m0) u' s')"
    unfolding res using r(5) [of u' s'] entry by simp
  show "entries m = (entries m0)(numberAt m0 ?u ?s := subscribed (bindings m0) chg del cre trg ?d)"
    unfolding res using entry by simp
  show "allocated m = (case entryOf (alertSubscriptionMap m0) ?u ?s of
                         None \<Rightarrow> Suc (allocated m0) | Some e \<Rightarrow> allocated m0)"
    unfolding res using r(4) by simp
  show "bindings m = (if subscribers ?d = 0 then Suc (bindings m0) else bindings m0)"
    unfolding res by simp
  show "effects m = effects m0
             @ (if subscribers ?d = 0 then [AdapterSubscribeAlerts q (bindings m0)] else [])"
    unfolding res by simp
qed



lemma subscribeAlerts_throws:
  assumes "\<not> methodsIntact (alertSubscriptionMap m) (propertyKey (query_user_id q))"
    and "checkStatus m ''subscribe alerts'' = Inr ()" and "forUser q"
  shows "subscribeAlerts forUser m q chg del cre trg = Inl TypeError"
proof (cases "subscribeAlerts forUser m q chg del cre trg")
  case (Inl e)
  then show ?thesis
    using assms(2,3)
    by (auto simp: subscribeAlerts_def entryFor_def Let_def
        split: sum.splits if_splits option.splits)
next
  case (Inr x)
  then obtain m' h where "subscribeAlerts forUser m q chg del cre trg = Inr (m', h)"
    by (cases x) auto
  from subscribeAlerts_result(4) [OF this] assms(1) show ?thesis by simp
qed





lemma entryOf_ordinary:
  assumes "entryOf sm u s = Some e"
  shows "u \<noteq> ''__proto__''" and "s \<noteq> ''__proto__''"
  using assms by (auto simp: entryOf_def hasOwnProperty_def split: if_splits option.splits)

lemma registeredCallbacks_prototype:
  assumes "u = ''__proto__'' \<or> s = ''__proto__''"
  shows "registeredCallbacks m u s event = []"
proof (cases "entryOf (alertSubscriptionMap m) u s")
  case None
  then show ?thesis by (simp add: registeredCallbacks_def)
next
  case (Some e)
  then show ?thesis using entryOf_ordinary [OF Some] assms by simp
qed







lemma methodsIntact_emptyObject [simp]: "methodsIntact emptyObject u"
  by (simp add: methodsIntact_def)



subsection \<open>Two subscribers under two keys\<close>






subsection \<open>A disposed manager and two keys that are names of \<^verbatim>\<open>Object.prototype\<close>\<close>



section \<open>enableAlert and disableAlert\<close>








section \<open>Reference counting of the underlying subscription\<close>























section \<open>The connection\<close>

text \<open>
  When a promise settles: never, or after some milliseconds with a result.
\<close>

datatype 'a completion = Never | After nat 'a

text \<open>
  Modelled from the spec: \<^verbatim>\<open>promise.timeout(promise, timeout, description)\<close> of
  \<^verbatim>\<open>@barchart/common-js\<close>, the explicit timeout that wraps the connection attempt. It settles
  as the promise does when that settles within the time, and is rejected with the
  description (\<open>message\<close>) otherwise.
\<close>

definition timeout :: "(error + 'a) completion \<Rightarrow> nat \<Rightarrow> string \<Rightarrow> error + 'a" where
  "timeout p ms message =
     (case p of
        Never \<Rightarrow> Inl (TimedOut message)
      | After t r \<Rightarrow> (if t \<le> ms then r else Inl (TimedOut message)))"

text \<open>
  \<^verbatim>\<open>connect(jwtProvider)\<close>. \<open>jwtProvider\<close> tells whether the argument is a \<^verbatim>\<open>JwtProvider\<close>.
  The result is the immediate rejection, or the number of the memoized promise that the
  returned promise follows. A new attempt constructs the adapter and calls its
  \<^verbatim>\<open>connect\<close>; the source defers that by one promise tick, it is recorded here with the
  call that starts it. The adapter of attempt \<open>p\<close> is numbered \<open>p\<close>.
\<close>

definition connect :: "bool \<Rightarrow> manager \<Rightarrow> manager \<times> (error + nat)" where
  "connect jwtProvider m =
     (if \<not> jwtProvider then (m, Inl (ArgumentRequired ''jwtProvider''))
      else
        (case checkDispose m ''connect'' of
           Inl e \<Rightarrow> (m, Inl e)
         | Inr _ \<Rightarrow>
             (case connectPromise m of
                None \<Rightarrow>
                  (m\<lparr>connectPromise := Some (promises m), promises := Suc (promises m),
                      effects := effects m @ [AdapterConnect (promises m)]\<rparr>,
                   Inr (promises m))
              | Some p \<Rightarrow> (m, Inr p))))"

text \<open>
  The settling of the attempt in flight, where \<open>answer\<close> is how the adapter's
  \<^verbatim>\<open>connect\<close> completes. The \<^verbatim>\<open>then\<close> callback stores the adapter and the memoized promise
  is fulfilled; the \<^verbatim>\<open>catch\<close> callback first sets \<^verbatim>\<open>_connectPromise\<close> to \<^verbatim>\<open>null\<close> and then
  throws, which rejects the memoized promise. Without an attempt in flight nothing
  happens.
\<close>

definition unavailable :: string where
  "unavailable = ''Alert service is temporarily unavailable. Please try again later.''"

definition fulfillPromise :: "nat \<Rightarrow> manager \<Rightarrow> manager" where
  "fulfillPromise p m = m\<lparr>settled := (settled m)(p \<mapsto> Inr ())\<rparr>"

definition rejectPromise :: "nat \<Rightarrow> error \<Rightarrow> manager \<Rightarrow> manager" where
  "rejectPromise p e m = m\<lparr>settled := (settled m)(p \<mapsto> Inl e)\<rparr>"

definition settleConnect :: "(error + unit) completion \<Rightarrow> manager \<Rightarrow> manager" where
  "settleConnect answer m =
     (case connectPromise m of
        None \<Rightarrow> m
      | Some p \<Rightarrow>
          (case settled m p of
             Some _ \<Rightarrow> m
           | None \<Rightarrow>
               (case timeout answer 10000 unavailable of
                  Inr _ \<Rightarrow> fulfillPromise p (m\<lparr>adapter := Some p\<rparr>)
                | Inl e \<Rightarrow> rejectPromise p e (m\<lparr>connectPromise := None\<rparr>))))"

text \<open>
  A history of the connection: calls of \<open>connect\<close>, settlings of the attempt in flight
  and disposal, with the results of the calls of \<open>connect\<close> in order.
\<close>

datatype connectionEvent = Connect bool | Settle "(error + unit) completion" | Dispose

fun run :: "connectionEvent list \<Rightarrow> manager \<Rightarrow> manager \<times> (error + nat) list" where
  "run [] m = (m, [])"
| "run (Connect jwtProvider # events) m =
     (let (m1, r) = connect jwtProvider m; (m2, rs) = run events m1 in (m2, r # rs))"
| "run (Settle answer # events) m = run events (settleConnect answer m)"
| "run (Dispose # events) m = run events (dispose m)"

text \<open>An event that neither fails nor disposes: a call with a provider, or a success.\<close>

definition succeeds :: "connectionEvent \<Rightarrow> bool" where
  "succeeds ev =
     (case ev of
        Connect jwtProvider \<Rightarrow> jwtProvider
      | Settle answer \<Rightarrow> (case timeout answer 10000 unavailable of Inl _ \<Rightarrow> False | Inr _ \<Rightarrow> True)
      | Dispose \<Rightarrow> False)"

text \<open>The attempts started: the calls of the adapter's \<^verbatim>\<open>connect\<close> on record.\<close>

definition attempts :: "manager \<Rightarrow> nat list" where
  "attempts m = concat (map (\<lambda>e. case e of AdapterConnect a \<Rightarrow> [a] | _ \<Rightarrow> []) (effects m))"

section \<open>Properties of the connection\<close>

lemma settleConnect_success:
  assumes "succeeds (Settle answer)"
  shows "connectPromise (settleConnect answer m) = connectPromise m"
    and "isDisposed (settleConnect answer m) = isDisposed m"
    and "effects (settleConnect answer m) = effects m"
    and "promises (settleConnect answer m) = promises m"
  using assms
  by (auto simp: settleConnect_def succeeds_def fulfillPromise_def split: option.splits sum.splits)

lemma connect_memo:
  assumes "\<not> isDisposed m" and "connectPromise m = Some p"
  shows "connect True m = (m, Inr p)"
  using assms by (simp add: connect_def checkDispose_def)

lemma run_memo:
  assumes "\<not> isDisposed m" and "connectPromise m = Some p" and "\<forall>ev\<in>set events. succeeds ev"
  shows "(\<forall>r\<in>set (snd (run events m)). r = Inr p)
    \<and> effects (fst (run events m)) = effects m"
  using assms
proof (induction events arbitrary: m)
  case Nil
  then show ?case by simp
next
  case (Cons ev events)
  have rest: "\<forall>ev\<in>set events. succeeds ev" using Cons.prems(3) by simp
  show ?case
  proof (cases ev)
    case (Connect jwtProvider)
    then have "jwtProvider" using Cons.prems(3) by (simp add: succeeds_def)
    then have c: "connect jwtProvider m = (m, Inr p)"
      using connect_memo [OF Cons.prems(1,2)] by simp
    show ?thesis
      using Cons.IH [OF Cons.prems(1,2) rest] c Connect
      by (simp add: case_prod_unfold Let_def)
  next
    case (Settle answer)
    then have ok: "succeeds (Settle answer)" using Cons.prems(3) by simp
    have a: "\<not> isDisposed (settleConnect answer m)"
      "connectPromise (settleConnect answer m) = Some p"
      using settleConnect_success [OF ok, of m] Cons.prems(1,2) by simp_all
    show ?thesis
      using Cons.IH [OF a rest] settleConnect_success(3) [OF ok, of m] Settle by simp
  next
    case Dispose
    then show ?thesis using Cons.prems(3) by (simp add: succeeds_def)
  qed
qed

lemma run_first:
  assumes "\<not> isDisposed m" and "connectPromise m = None" and "\<forall>ev\<in>set events. succeeds ev"
  shows "(\<forall>r\<in>set (snd (run events m)). r = Inr (promises m))
    \<and> effects (fst (run events m))
        = effects m @ (if list_ex (\<lambda>ev. ev = Connect True) events
                       then [AdapterConnect (promises m)] else [])"
  using assms
proof (induction events arbitrary: m)
  case Nil
  then show ?case by simp
next
  case (Cons ev events)
  have rest: "\<forall>ev\<in>set events. succeeds ev" using Cons.prems(3) by simp
  show ?case
  proof (cases ev)
    case (Connect jwtProvider)
    then have j: "jwtProvider" using Cons.prems(3) by (simp add: succeeds_def)
    let ?m1 = "m\<lparr>connectPromise := Some (promises m), promises := Suc (promises m),
                   effects := effects m @ [AdapterConnect (promises m)]\<rparr>"
    have c: "connect jwtProvider m = (?m1, Inr (promises m))"
      using j Cons.prems(1,2) by (simp add: connect_def checkDispose_def)
    have a: "\<not> isDisposed ?m1" "connectPromise ?m1 = Some (promises m)"
      using Cons.prems(1) by simp_all
    show ?thesis
      using run_memo [OF a rest] c Connect j by (simp add: case_prod_unfold Let_def)
  next
    case (Settle answer)
    have same: "settleConnect answer m = m"
      using Cons.prems(2) by (simp add: settleConnect_def)
    show ?thesis
      using Cons.IH [OF Cons.prems(1,2) rest] same Settle by simp
  next
    case Dispose
    then show ?thesis using Cons.prems(3) by (simp add: succeeds_def)
  qed
qed

lemma attempts_append: "effects m' = effects m @ es \<Longrightarrow>
    attempts m' = attempts m @ concat (map (\<lambda>e. case e of AdapterConnect a \<Rightarrow> [a] | _ \<Rightarrow> []) es)"
  by (simp add: attempts_def)

text \<open>The promise a call of \<open>connect\<close> is to return: the memoized one, or the next.\<close>

definition memoized :: "manager \<Rightarrow> nat" where
  "memoized m = (case connectPromise m of None \<Rightarrow> promises m | Some p \<Rightarrow> p)"

text \<open>
  C3. On a manager that has not been disposed, through any history of calls of connect
  (each with a token provider) and of successful settlings of the attempt, in any order
  and number, every call returns the same memoized promise, whether the attempt is
  pending or has resolved, and at most one attempt is started: one when no promise was
  memoized before and connect is called at all, none otherwise.
\<close>

theorem connect_memoized:
  assumes "\<not> isDisposed m" and "\<forall>ev\<in>set events. succeeds ev"
  shows "(\<forall>r\<in>set (snd (run events m)). r = Inr (memoized m))
    \<and> attempts (fst (run events m))
        = attempts m @ (if connectPromise m = None \<and> list_ex (\<lambda>ev. ev = Connect True) events
                        then [memoized m] else [])"
proof (cases "connectPromise m")
  case None
  then have p: "memoized m = promises m" by (simp add: memoized_def)
  note r = run_first [OF assms(1) None assms(2)]
  have "attempts (fst (run events m))
        = attempts m @ (if list_ex (\<lambda>ev. ev = Connect True) events then [promises m] else [])"
    using attempts_append [of "fst (run events m)" m] r by simp
  then show ?thesis using r None p by simp
next
  case (Some p)
  then have p: "memoized m = p" by (simp add: memoized_def)
  note r = run_memo [OF assms(1) Some assms(2)]
  have "attempts (fst (run events m)) = attempts m"
    using r by (simp add: attempts_def)
  then show ?thesis using r Some p by simp
qed

theorem connect_memoized_witness:
  "run [Connect True, Connect True, Settle (After 200 (Inr ())), Connect True] newManager
     = (connectedManager, [Inr 0, Inr 0, Inr 0])
   \<and> attempts connectedManager = [0]"
proof -
  let ?evs = "[Connect True, Connect True, Settle (After 200 (Inr ())), Connect True]"
  have live: "\<not> isDisposed newManager" by (simp add: newManager_def)
  have ok: "\<forall>ev\<in>set ?evs. succeeds ev"
    by (simp add: succeeds_def timeout_def)
  have m: "memoized newManager = 0" "connectPromise newManager = None" "attempts newManager = []"
    by (simp_all add: memoized_def newManager_def attempts_def)
  have final: "fst (run ?evs newManager) = connectedManager"
    by (simp add: connect_def checkDispose_def settleConnect_def timeout_def fulfillPromise_def
          newManager_def connectedManager_def)
  have "\<exists>a b c. snd (run ?evs newManager) = [a, b, c]"
    by (simp add: case_prod_unfold Let_def)
  then obtain a b c where abc: "snd (run ?evs newManager) = [a, b, c]" by blast
  from connect_memoized [OF live ok] have
    "\<forall>r\<in>set (snd (run ?evs newManager)). r = Inr 0"
    "attempts (fst (run ?evs newManager)) = [0]"
    unfolding m by simp_all
  then have "snd (run ?evs newManager) = [Inr 0, Inr 0, Inr 0]" "attempts connectedManager = [0]"
    unfolding abc final by simp_all
  with final show ?thesis by (metis prod.collapse)
qed

text \<open>
  What holds of the memoized promise in every history: the numbers in use are below
  \<open>promises\<close>, and the memoized promise has not been rejected.
\<close>

definition memoInvariant :: "manager \<Rightarrow> bool" where
  "memoInvariant m =
     ((\<forall>q. settled m q \<noteq> None \<longrightarrow> q < promises m)
      \<and> (\<forall>q. connectPromise m = Some q \<longrightarrow> q < promises m \<and> (\<forall>err. settled m q \<noteq> Some (Inl err))))"

lemma memoInvariant_connect: "memoInvariant m \<Longrightarrow> memoInvariant (fst (connect jwtProvider m))"
  by (auto simp: memoInvariant_def connect_def checkDispose_def less_Suc_eq
      split: option.splits)

lemma memoInvariant_settleConnect: "memoInvariant m \<Longrightarrow> memoInvariant (settleConnect answer m)"
  by (auto simp: memoInvariant_def settleConnect_def fulfillPromise_def rejectPromise_def
      split: option.splits sum.splits)

lemma memoInvariant_dispose: "memoInvariant m \<Longrightarrow> memoInvariant (dispose m)"
  by (auto simp: memoInvariant_def dispose_def)

lemma memoInvariant_run: "memoInvariant m \<Longrightarrow> memoInvariant (fst (run events m))"
proof (induction events arbitrary: m)
  case Nil
  then show ?case by simp
next
  case (Cons ev events)
  show ?case
  proof (cases ev)
    case (Connect jwtProvider)
    have "memoInvariant (fst (run events (fst (connect jwtProvider m))))"
      using Cons.IH [OF memoInvariant_connect [OF Cons.prems]] .
    then show ?thesis using Connect by (simp add: case_prod_unfold Let_def)
  next
    case (Settle answer)
    then show ?thesis using Cons.IH [OF memoInvariant_settleConnect [OF Cons.prems]] by simp
  next
    case Dispose
    then show ?thesis using Cons.IH [OF memoInvariant_dispose [OF Cons.prems]] by simp
  qed
qed

lemma memoInvariant_newManager: "memoInvariant newManager"
  by (simp add: memoInvariant_def newManager_def)

text \<open>
  C4. When the attempt in flight fails, through a rejection of the adapter's connect or
  because that does not complete within 10000 milliseconds, the \<^verbatim>\<open>catch\<close> callback sets
  \<^verbatim>\<open>_connectPromise\<close> to \<^verbatim>\<open>null\<close> and then rejects the memoized promise with the error; on a
  timeout the error is the message "Alert service is temporarily unavailable. Please try
  again later.". The next call of connect on the manager (if it is not disposed) starts a
  new attempt. In every history of a new manager a promise that has been rejected is not
  the memoized one.
\<close>

theorem failed_connect_clears_memo:
  assumes "connectPromise m = Some p" and "settled m p = None"
    and "timeout answer 10000 unavailable = Inl e"
  shows "settleConnect answer m = rejectPromise p e (m\<lparr>connectPromise := None\<rparr>)
    \<and> connectPromise (settleConnect answer m) = None
    \<and> settled (settleConnect answer m) p = Some (Inl e)
    \<and> (answer = Never \<or> (\<exists>t r. answer = After t r \<and> 10000 < t) \<longrightarrow> e = TimedOut unavailable)
    \<and> (\<not> isDisposed m \<longrightarrow>
          snd (connect True (settleConnect answer m)) = Inr (promises m)
          \<and> connectPromise (fst (connect True (settleConnect answer m))) = Some (promises m)
          \<and> attempts (fst (connect True (settleConnect answer m))) = attempts m @ [promises m])
    \<and> (\<forall>events q err. settled (fst (run events newManager)) q = Some (Inl err)
          \<longrightarrow> connectPromise (fst (run events newManager)) \<noteq> Some q)"
proof -
  have a: "settleConnect answer m = rejectPromise p e (m\<lparr>connectPromise := None\<rparr>)"
    using assms by (simp add: settleConnect_def)
  have b: "connectPromise (settleConnect answer m) = None"
    "settled (settleConnect answer m) p = Some (Inl e)"
    unfolding a by (simp_all add: rejectPromise_def)
  have c: "answer = Never \<or> (\<exists>t r. answer = After t r \<and> 10000 < t) \<longrightarrow> e = TimedOut unavailable"
    using assms(3) by (auto simp: timeout_def)
  have d: "snd (connect True (settleConnect answer m)) = Inr (promises m)
          \<and> connectPromise (fst (connect True (settleConnect answer m))) = Some (promises m)
          \<and> attempts (fst (connect True (settleConnect answer m))) = attempts m @ [promises m]"
    if "\<not> isDisposed m"
    using that unfolding a
    by (simp add: connect_def checkDispose_def rejectPromise_def attempts_def)
  have e: "connectPromise (fst (run events newManager)) \<noteq> Some q"
    if "settled (fst (run events newManager)) q = Some (Inl err)" for events q err
    using memoInvariant_run [OF memoInvariant_newManager, of events] that
    by (auto simp: memoInvariant_def)
  show ?thesis using a b c d e by blast
qed

theorem failed_connect_clears_memo_witness:
  "connectPromise (fst (connect True newManager)) = Some 0
   \<and> settled (fst (connect True newManager)) 0 = None
   \<and> timeout Never 10000 unavailable = (Inl (TimedOut unavailable) :: error + unit)
   \<and> connectPromise (settleConnect Never (fst (connect True newManager))) = None
   \<and> settled (settleConnect Never (fst (connect True newManager))) 0
       = Some (Inl (TimedOut unavailable))
   \<and> snd (run [Connect True, Settle Never, Connect True] newManager) = [Inr 0, Inr 1]
   \<and> attempts (fst (run [Connect True, Settle Never, Connect True] newManager)) = [0, 1]"
proof -
  let ?m = "fst (connect True newManager)"
  have p: "connectPromise ?m = Some 0" "settled ?m 0 = None" "\<not> isDisposed ?m"
    "promises ?m = 1" "attempts ?m = [0]"
    by (simp_all add: connect_def checkDispose_def newManager_def attempts_def)
  have t: "timeout Never 10000 unavailable = (Inl (TimedOut unavailable) :: error + unit)"
    by (simp add: timeout_def)
  note w = failed_connect_clears_memo [OF p(1,2) t]
  have r: "run [Connect True, Settle Never, Connect True] newManager
         = (fst (connect True (settleConnect Never ?m)),
            [snd (connect True newManager), snd (connect True (settleConnect Never ?m))])"
    by (simp add: case_prod_unfold Let_def)
  have f: "snd (connect True newManager) = Inr 0"
    by (simp add: connect_def checkDispose_def newManager_def)
  from w have w1: "connectPromise (settleConnect Never ?m) = None"
    "settled (settleConnect Never ?m) 0 = Some (Inl (TimedOut unavailable))"
    by blast+
  from w p(3) have w2: "snd (connect True (settleConnect Never ?m)) = Inr (promises ?m)"
    "attempts (fst (connect True (settleConnect Never ?m))) = attempts ?m @ [promises ?m]"
    by blast+
  show ?thesis
    unfolding r f using w1 w2 p(1,2) t unfolding p(4,5) by simp
qed

section \<open>createAlert\<close>

text \<open>
  What \<^verbatim>\<open>createAlert\<close> takes from outside the file: the validators
  \<^verbatim>\<open>validate.alert.forCreate\<close> and \<^verbatim>\<open>validate.instrument.forCreate\<close> (true when they do not
  throw), and \<^verbatim>\<open>convertBaseCodeToUnitCode\<close>, \<^verbatim>\<open>valueParser\<close> (with the thousands separator
  \<^verbatim>\<open>','\<close>) and \<^verbatim>\<open>formatPrice\<close> of \<^verbatim>\<open>@barchart/marketdata-api-js\<close>. \<open>valueParser\<close> may throw;
  otherwise it gives \<open>Some\<close> price when \<^verbatim>\<open>is.number\<close> holds of what it returns, and \<open>None\<close>
  when not.
\<close>

record instrument =
  unitcode :: int
  instrument_symbol :: string

record environment =
  alertForCreate :: "alert \<Rightarrow> bool"
  instrumentForCreate :: "string option \<Rightarrow> instrument \<Rightarrow> bool"
  convertBaseCodeToUnitCode :: "int \<Rightarrow> string"
  valueParser :: "operand \<Rightarrow> string \<Rightarrow> error + number option"
  formatPrice :: "number \<Rightarrow> string \<Rightarrow> string"

text \<open>
  What the network answers during one call: the catalogs, the result of the \<open>k\<close>-th
  instrument lookup issued (\<^verbatim>\<open>result.instrument\<close> may be absent), the lookups that settle,
  in the order they settle, and the adapter's answer to \<^verbatim>\<open>createAlert\<close>.
\<close>

record responses =
  propertiesResponse :: "error + property list"
  operatorsResponse :: "error + operator list"
  lookupResponse :: "nat \<Rightarrow> error + instrument option"
  arrival :: "nat list"
  createResponse :: "error + alert"

text \<open>
  The three \<^verbatim>\<open>reduce\<close> calls. \<^verbatim>\<open>find\<close> returns \<^verbatim>\<open>undefined\<close> when no element matches, and
  reading a field of \<^verbatim>\<open>undefined\<close> throws. The property map and the operator map are keyed
  by identifiers, which are numbers. The instrument map is an object keyed by symbol: it
  gives, for a symbol, the promise of its lookup, here the number of the lookup; the
  lookups issued are listed in order with their argument. The reduction of the instrument
  map gives the map and the lookups issued so far together with the error, if it throws:
  it throws where the \<^verbatim>\<open>hasOwnProperty\<close> it calls is no longer the method (a promise
  assigned as prototype has no property of that name).
\<close>

fun buildPropertyMap ::
  "property list \<Rightarrow> condition list \<Rightarrow> (int option \<rightharpoonup> property) \<Rightarrow> error + (int option \<rightharpoonup> property)" where
  "buildPropertyMap properties [] pm = Inr pm"
| "buildPropertyMap properties (c # cs) pm =
     (case find (\<lambda>p. property_id p = property_id (property c)) properties of
        None \<Rightarrow> Inl TypeError
      | Some p \<Rightarrow> buildPropertyMap properties cs (pm(property_id p \<mapsto> p)))"

fun buildOperatorMap ::
  "operator list \<Rightarrow> condition list \<Rightarrow> (int option \<rightharpoonup> operator) \<Rightarrow> error + (int option \<rightharpoonup> operator)" where
  "buildOperatorMap operators [] om = Inr om"
| "buildOperatorMap operators (c # cs) om =
     (case find (\<lambda>candidate. operator_id candidate = operator_id (operator c)) operators of
        None \<Rightarrow> Inl TypeError
      | Some oper \<Rightarrow> buildOperatorMap operators cs (om(operator_id oper \<mapsto> oper)))"

fun buildInstrumentMap ::
  "(int option \<rightharpoonup> property) \<Rightarrow> condition list \<Rightarrow> nat object \<times> string option list
     \<Rightarrow> (nat object \<times> string option list) \<times> error option" where
  "buildInstrumentMap pm [] acc = (acc, None)"
| "buildInstrumentMap pm (c # cs) (im, lookups) =
     (case pm (property_id (property c)) of
        None \<Rightarrow> ((im, lookups), Some TypeError)
      | Some p \<Rightarrow>
          if target_type (target p) = Some ''symbol''
          then
            (let symbol = target_identifier (target (property c))
             in if \<not> callsHasOwnProperty (\<lambda>_. False) im then ((im, lookups), Some TypeError)
                else if \<not> hasOwnProperty im (propertyKey symbol)
                then buildInstrumentMap pm cs
                       (assign im (propertyKey symbol) (length lookups), lookups @ [symbol])
                else buildInstrumentMap pm cs (im, lookups))
          else buildInstrumentMap pm cs (im, lookups))"

text \<open>
  \<^verbatim>\<open>/^(-?)([0-9,]+)$/\<close>, and the operand handed to the parser: a string that matches gets
  \<^verbatim>\<open>'.0'\<close> appended.
\<close>

definition isDigitOrComma :: "char \<Rightarrow> bool" where
  "isDigitOrComma ch = (ch = CHR '','' \<or> (CHR ''0'' \<le> ch \<and> ch \<le> CHR ''9''))"

definition matchesInteger :: "string \<Rightarrow> bool" where
  "matchesInteger s =
     (case s of
        [] \<Rightarrow> False
      | ch # rest \<Rightarrow>
          if ch = CHR ''-'' then rest \<noteq> [] \<and> list_all isDigitOrComma rest
          else list_all isDigitOrComma (ch # rest))"

definition operandToParse :: "operand \<Rightarrow> operand" where
  "operandToParse x =
     (case x of
        OperandString s \<Rightarrow> (if matchesInteger s then OperandString (s @ ''.0'') else OperandString s)
      | _ \<Rightarrow> x)"

text \<open>
  The \<^verbatim>\<open>then\<close> callback of a condition with a symbol target, given the result of its
  lookup: what the condition's promise settles to, with the condition as the callback
  leaves it. \<open>i\<close> is the index of the condition, \<open>p\<close> and \<open>oper\<close> are the catalog's
  property and operator.
\<close>

definition validateCondition ::
  "environment \<Rightarrow> nat \<Rightarrow> property \<Rightarrow> operator \<Rightarrow> instrument option \<Rightarrow> condition \<Rightarrow> error + condition" where
  "validateCondition env i p oper result c =
     (case result of
        None \<Rightarrow> Inl TypeError
      | Some instr \<Rightarrow>
          (let code = convertBaseCodeToUnitCode env (unitcode instr)
           in if \<not> instrumentForCreate env (target_identifier (target (property c))) instr
              then Inl ValidationError
              else if format p = Some ''price'' \<and> operand_type oper = Some ''number'' \<and> operand_literal oper
              then
                (case valueParser env (operandToParse (operand (operator c))) code of
                   Inl e \<Rightarrow> Inl e
                 | Inr None \<Rightarrow> Inl (ConditionInvalid i)
                 | Inr (Some price) \<Rightarrow>
                     Inr (c\<lparr>operator := (operator c)
                            \<lparr>operand_display := Some (operand (operator c)),
                             operand_format := Some (formatPrice env price code),
                             operand := OperandNumber price\<rparr>\<rparr>))
              else Inr c))"

text \<open>
  The promise of condition \<open>i\<close>: for a symbol target the promise of its lookup followed
  by the callback, otherwise a resolved promise. \<open>Some k\<close> as first component says that the
  promise settles when lookup \<open>k\<close> does.
\<close>

definition conditionPromise ::
  "environment \<Rightarrow> responses \<Rightarrow> (int option \<rightharpoonup> property) \<Rightarrow> (int option \<rightharpoonup> operator)
     \<Rightarrow> nat object \<Rightarrow> nat \<Rightarrow> condition \<Rightarrow> nat option \<times> (error + condition)" where
  "conditionPromise env rs pm om im i c =
     (case (pm (property_id (property c)), om (operator_id (operator c))) of
        (Some p, Some oper) \<Rightarrow>
          if target_type (target p) = Some ''symbol''
          then
            (case getProperty im (propertyKey (target_identifier (target (property c)))) of
               None \<Rightarrow> (None, Inl TypeError)
             | Some k \<Rightarrow>
                 (Some k,
                  case lookupResponse rs k of
                    Inl e \<Rightarrow> Inl e
                  | Inr result \<Rightarrow> validateCondition env i p oper result c))
          else (None, Inr c)
      | _ \<Rightarrow> (None, Inl TypeError))"

fun conditionPromises ::
  "environment \<Rightarrow> responses \<Rightarrow> (int option \<rightharpoonup> property) \<Rightarrow> (int option \<rightharpoonup> operator)
     \<Rightarrow> nat object \<Rightarrow> nat \<Rightarrow> condition list \<Rightarrow> (nat option \<times> (error + condition)) list" where
  "conditionPromises env rs pm om im i [] = []"
| "conditionPromises env rs pm om im i (c # cs) =
     conditionPromise env rs pm om im i c # conditionPromises env rs pm om im (Suc i) cs"

text \<open>
  \<^verbatim>\<open>Promise.all\<close> over the promises of the conditions. The promises that hang on no lookup
  are settled from the start; those of a lookup settle when it does, in the order of the
  conditions. The first rejection in that order rejects the whole; without a rejection
  the whole is fulfilled once every promise is settled, and stays pending (\<open>None\<close>) when a
  lookup it waits for never settles.
\<close>

definition settledPromises ::
  "nat list \<Rightarrow> (nat option \<times> (error + condition)) list \<Rightarrow> (error + condition) list" where
  "settledPromises arrived ps =
     map snd (filter (\<lambda>x. fst x = None) ps)
     @ concat (map (\<lambda>k. map snd (filter (\<lambda>x. fst x = Some k) ps)) arrived)"

definition firstRejection :: "(error + condition) list \<Rightarrow> error option" where
  "firstRejection outcomes =
     (case filter isl outcomes of [] \<Rightarrow> None | x # _ \<Rightarrow> Some (projl x))"

definition promiseAll ::
  "nat list \<Rightarrow> (nat option \<times> (error + condition)) list \<Rightarrow> (error + condition list) option" where
  "promiseAll arrived ps =
     (case firstRejection (settledPromises arrived ps) of
        Some e \<Rightarrow> Some (Inl e)
      | None \<Rightarrow>
          if list_all (\<lambda>x. case fst x of None \<Rightarrow> True | Some k \<Rightarrow> k \<in> set arrived) ps
          then Some (Inr (map (\<lambda>x. projr (snd x)) ps))
          else None)"

text \<open>
  The callback that runs once both catalogs are there: it builds the three maps, issuing
  the lookups, and makes the promise of every condition. It gives the lookups issued and
  the promises, or, with the lookups issued until then, the error thrown on the way.
\<close>

definition resolveConditions ::
  "environment \<Rightarrow> responses \<Rightarrow> property list \<Rightarrow> operator list \<Rightarrow> alert
     \<Rightarrow> string option list \<times> (error + (nat option \<times> (error + condition)) list)" where
  "resolveConditions env rs properties operators a =
     (case buildPropertyMap properties (conditions a) Map.empty of
        Inl e \<Rightarrow> ([], Inl e)
      | Inr pm \<Rightarrow>
          (case buildOperatorMap operators (conditions a) Map.empty of
             Inl e \<Rightarrow> ([], Inl e)
           | Inr om \<Rightarrow>
               (case buildInstrumentMap pm (conditions a) (emptyObject, []) of
                  ((im, lookups), Some e) \<Rightarrow> (lookups, Inl e)
                | ((im, lookups), None) \<Rightarrow>
                    (lookups, Inr (conditionPromises env rs pm om im 0 (conditions a))))))"

text \<open>
  \<^verbatim>\<open>createAlert(alert)\<close>: the manager after the call and what the returned promise settles
  to, \<open>None\<close> when it stays pending. Both catalogs are requested before either answer is
  looked at. The alert handed to the adapter carries the conditions as the callbacks
  left them.
\<close>

definition createAlert ::
  "environment \<Rightarrow> responses \<Rightarrow> manager \<Rightarrow> alert \<Rightarrow> manager \<times> (error + alert) option" where
  "createAlert env rs m a =
     (case checkStatus m ''create alert'' of
        Inl e \<Rightarrow> (m, Some (Inl e))
      | Inr _ \<Rightarrow>
          if \<not> alertForCreate env a then (m, Some (Inl ValidationError))
          else
            (let m1 = m\<lparr>effects := effects m @ [AdapterGetProperties, AdapterGetOperators]\<rparr>
             in case (propertiesResponse rs, operatorsResponse rs) of
                  (Inl e, _) \<Rightarrow> (m1, Some (Inl e))
                | (Inr properties, Inl e) \<Rightarrow> (m1, Some (Inl e))
                | (Inr properties, Inr operators) \<Rightarrow>
                    (case resolveConditions env rs properties operators a of
                       (lookups, outcome) \<Rightarrow>
                         (let m2 = m1\<lparr>effects := effects m1 @ map LookupInstrument lookups\<rparr>
                          in case outcome of
                               Inl e \<Rightarrow> (m2, Some (Inl e))
                             | Inr ps \<Rightarrow>
                                 (case promiseAll (arrival rs) ps of
                                    None \<Rightarrow> (m2, None)
                                  | Some (Inl e) \<Rightarrow> (m2, Some (Inl e))
                                  | Some (Inr resolved) \<Rightarrow>
                                      (m2\<lparr>effects := effects m2
                                            @ [AdapterCreateAlert (a\<lparr>conditions := resolved\<rparr>)]\<rparr>,
                                       Some (createResponse rs)))))))"

subsection \<open>A catalog, a parser and three conditions\<close>

definition catalogProperty :: "int \<Rightarrow> string \<Rightarrow> string \<Rightarrow> property" where
  "catalogProperty i targetType fmt =
     \<lparr>property_id = Some i, property_type = None,
      target = \<lparr>target_type = Some targetType, target_identifier = None\<rparr>,
      format = Some fmt, category = None, description = DescriptionUndefined,
      descriptionShort = DescriptionUndefined, sortOrder = None\<rparr>"

definition catalogOperator :: "int \<Rightarrow> operator" where
  "catalogOperator i =
     \<lparr>operator_id = Some i, operand = OperandUndefined, operand_display = None,
      operand_format = None, operand_type = Some ''number'', operand_literal = True\<rparr>"

definition conditionOn :: "int \<Rightarrow> string \<Rightarrow> string \<Rightarrow> condition" where
  "conditionOn i symbol value = (lastAbove symbol value)\<lparr>property :=
     (property (lastAbove symbol value))\<lparr>property_id := Some i,
        target := \<lparr>target_type = None, target_identifier = Some symbol\<rparr>\<rparr>\<rparr>"

definition exampleEnvironment :: environment where
  "exampleEnvironment =
     \<lparr>alertForCreate = (\<lambda>_. True), instrumentForCreate = (\<lambda>_ _. True),
      convertBaseCodeToUnitCode = (\<lambda>_. ''2''),
      valueParser = (\<lambda>x code. case x of
                        OperandString s \<Rightarrow>
                          (if s = ''600.0'' then Inr (Some (Finite 600))
                           else if s = ''1,234.0'' then Inr (Some (Finite 1234)) else Inr None)
                      | _ \<Rightarrow> Inl TypeError),
      formatPrice = (\<lambda>price code. if price = Finite 600 then ''600.00'' else ''1,234.00'')\<rparr>"

definition exampleResponses :: responses where
  "exampleResponses =
     \<lparr>propertiesResponse =
        Inr [catalogProperty 1 ''symbol'' ''price'', catalogProperty 7 ''portfolio'' ''price''],
      operatorsResponse = Inr [catalogOperator 2],
      lookupResponse = (\<lambda>k. Inr (Some \<lparr>unitcode = 2, instrument_symbol = ''X''\<rparr>)),
      arrival = [1, 0],
      createResponse = Inr (alertOf ''created'' ''price'' [])\<rparr>"

section \<open>Properties of createAlert\<close>


definition symbolOf :: "condition \<Rightarrow> string" where
  "symbolOf c = propertyKey (target_identifier (target (property c)))"









lemma length_conditionPromises [simp]:
  "length (conditionPromises env rs pm om im n cs) = length cs"
  by (induction cs arbitrary: n) simp_all

lemma nth_conditionPromises:
  "i < length cs \<Longrightarrow>
   conditionPromises env rs pm om im n cs ! i = conditionPromise env rs pm om im (n + i) (cs ! i)"
proof (induction cs arbitrary: n i)
  case Nil
  then show ?case by simp
next
  case (Cons c cs)
  then show ?case by (cases i) simp_all
qed

lemma createAlert_resolving:
  assumes "checkStatus m ''create alert'' = Inr ()" and "alertForCreate env a"
    and "propertiesResponse rs = Inr properties" and "operatorsResponse rs = Inr operators"
    and "resolveConditions env rs properties operators a = (lookups, Inr ps)"
  shows "createAlert env rs m a =
     (case promiseAll (arrival rs) ps of
        None \<Rightarrow>
          (m\<lparr>effects := effects m @ [AdapterGetProperties, AdapterGetOperators]
                           @ map LookupInstrument lookups\<rparr>, None)
      | Some (Inl e) \<Rightarrow>
          (m\<lparr>effects := effects m @ [AdapterGetProperties, AdapterGetOperators]
                           @ map LookupInstrument lookups\<rparr>, Some (Inl e))
      | Some (Inr resolved) \<Rightarrow>
          (m\<lparr>effects := effects m @ [AdapterGetProperties, AdapterGetOperators]
                           @ map LookupInstrument lookups
                           @ [AdapterCreateAlert (a\<lparr>conditions := resolved\<rparr>)]\<rparr>,
           Some (createResponse rs)))"
  using assms by (simp add: createAlert_def Let_def split: option.splits sum.splits)

lemma createAlert_thrown:
  assumes "checkStatus m ''create alert'' = Inr ()" and "alertForCreate env a"
    and "propertiesResponse rs = Inr properties" and "operatorsResponse rs = Inr operators"
    and "resolveConditions env rs properties operators a = (lookups, Inl e)"
  shows "createAlert env rs m a =
          (m\<lparr>effects := effects m @ [AdapterGetProperties, AdapterGetOperators]
                           @ map LookupInstrument lookups\<rparr>, Some (Inl e))"
  using assms by (simp add: createAlert_def Let_def)

definition isLookup :: "effect \<Rightarrow> bool" where
  "isLookup e = (case e of LookupInstrument s \<Rightarrow> True | _ \<Rightarrow> False)"


lemma filter_isLookup [simp]: "filter isLookup (map LookupInstrument lookups) = map LookupInstrument lookups"
  by (induction lookups) (simp_all add: isLookup_def)



definition threeConditions :: alert where
  "threeConditions =
     alertOf ''a'' ''price''
       [conditionOn 1 ''AAPL'' ''600'', conditionOn 1 ''MSFT'' ''1,234'', conditionOn 1 ''AAPL'' ''600.0'']"

lemma threeConditions_maps:
  "buildPropertyMap [catalogProperty 1 ''symbol'' ''price'', catalogProperty 7 ''portfolio'' ''price'']
     (conditions threeConditions) Map.empty
     = Inr [Some 1 \<mapsto> catalogProperty 1 ''symbol'' ''price'']"
  "buildOperatorMap [catalogOperator 2] (conditions threeConditions) Map.empty
     = Inr [Some 2 \<mapsto> catalogOperator 2]"
  by (simp_all add: threeConditions_def alertOf_def conditionOn_def lastAbove_def
        catalogProperty_def catalogOperator_def)

text \<open>The instrument map of the example: the lookups of \<^verbatim>\<open>AAPL\<close> and \<^verbatim>\<open>MSFT\<close>, in that order.\<close>

definition exampleInstruments :: "nat object" where
  "exampleInstruments = \<lparr>own = [''AAPL'' \<mapsto> 0, ''MSFT'' \<mapsto> Suc 0], prototype = None\<rparr>"

lemma threeConditions_instruments:
  "buildInstrumentMap [Some 1 \<mapsto> catalogProperty 1 ''symbol'' ''price'']
     (conditions threeConditions) (emptyObject, [])
   = ((exampleInstruments, [Some ''AAPL'', Some ''MSFT'']), None)"
  by (simp add: threeConditions_def alertOf_def conditionOn_def lastAbove_def
        catalogProperty_def propertyKey_def Let_def callsHasOwnProperty_def hasOwnProperty_def
        assign_def emptyObject_def exampleInstruments_def)


subsection \<open>Two alerts outside the statement above\<close>




subsection \<open>All conditions or none\<close>

text \<open>The alerts a call has handed to the adapter's \<^verbatim>\<open>createAlert\<close>.\<close>

definition alertsCreated :: "manager \<Rightarrow> manager \<Rightarrow> alert list" where
  "alertsCreated m m' =
     concat (map (\<lambda>e. case e of AdapterCreateAlert x \<Rightarrow> [x] | _ \<Rightarrow> [])
               (drop (length (effects m)) (effects m')))"

text \<open>
  The operand of a condition fails to parse: the catalog's property has target type
  symbol and format price, the catalog's operator takes a literal number, the lookup of
  the symbol has answered with an instrument, and the parser, given the unit code of that
  instrument, returns something that is not a number.
\<close>

definition failsToParse ::
  "environment \<Rightarrow> responses \<Rightarrow> (int option \<rightharpoonup> property) \<Rightarrow> (int option \<rightharpoonup> operator)
     \<Rightarrow> nat object \<Rightarrow> condition \<Rightarrow> bool" where
  "failsToParse env rs pm om im c =
     (case (pm (property_id (property c)), om (operator_id (operator c)),
            getProperty im (symbolOf c)) of
        (Some p, Some oper, Some k) \<Rightarrow>
          target_type (target p) = Some ''symbol'' \<and> format p = Some ''price''
          \<and> operand_type oper = Some ''number'' \<and> operand_literal oper
          \<and> k \<in> set (arrival rs)
          \<and> (case lookupResponse rs k of
                Inr (Some instr) \<Rightarrow>
                  valueParser env (operandToParse (operand (operator c)))
                    (convertBaseCodeToUnitCode env (unitcode instr)) = Inr None
              | _ \<Rightarrow> False)
      | _ \<Rightarrow> False)"




lemma firstRejection_none: "firstRejection outcomes = None \<longleftrightarrow> (\<forall>x\<in>set outcomes. \<not> isl x)"
proof -
  have "firstRejection outcomes = None \<longleftrightarrow> filter isl outcomes = []"
    by (simp add: firstRejection_def split: list.splits)
  then show ?thesis by (simp add: filter_empty_conv)
qed

lemma settled_mem:
  assumes "x \<in> set ps" and "case fst x of None \<Rightarrow> True | Some k \<Rightarrow> k \<in> set arrived"
  shows "snd x \<in> set (settledPromises arrived ps)"
proof (cases "fst x")
  case None
  then show ?thesis using assms(1) by (auto simp: settledPromises_def)
next
  case (Some k)
  then have "k \<in> set arrived" using assms(2) by simp
  then show ?thesis using assms(1) Some by (force simp: settledPromises_def)
qed

lemma promiseAll_rejects:
  assumes "x \<in> set ps" and "isl (snd x)"
    and "case fst x of None \<Rightarrow> True | Some k \<Rightarrow> k \<in> set arrived"
  shows "\<exists>e. promiseAll arrived ps = Some (Inl e)"
proof -
  have "snd x \<in> set (settledPromises arrived ps)"
    using settled_mem [OF assms(1,3)] .
  then have "firstRejection (settledPromises arrived ps) \<noteq> None"
    using assms(2) by (auto simp: firstRejection_none)
  then show ?thesis by (auto simp: promiseAll_def)
qed

lemma promiseAll_fulfilled:
  assumes "promiseAll arrived ps = Some (Inr resolved)"
  shows "list_all (\<lambda>x. \<not> isl (snd x)) ps" and "resolved = map (\<lambda>x. projr (snd x)) ps"
    and "list_all (\<lambda>x. case fst x of None \<Rightarrow> True | Some k \<Rightarrow> k \<in> set arrived) ps"
proof -
  have none: "firstRejection (settledPromises arrived ps) = None"
    and all: "list_all (\<lambda>x. case fst x of None \<Rightarrow> True | Some k \<Rightarrow> k \<in> set arrived) ps"
    and r: "resolved = map (\<lambda>x. projr (snd x)) ps"
    using assms by (auto simp: promiseAll_def split: option.splits if_splits)
  show "resolved = map (\<lambda>x. projr (snd x)) ps" by (rule r)
  show "list_all (\<lambda>x. case fst x of None \<Rightarrow> True | Some k \<Rightarrow> k \<in> set arrived) ps" by (rule all)
  have "\<not> isl (snd x)" if "x \<in> set ps" for x
  proof -
    have "case fst x of None \<Rightarrow> True | Some k \<Rightarrow> k \<in> set arrived"
      using all that by (simp add: list_all_iff)
    from settled_mem [OF that this] none show ?thesis
      by (simp add: firstRejection_none)
  qed
  then show "list_all (\<lambda>x. \<not> isl (snd x)) ps" by (simp add: list_all_iff)
qed

lemma createAlert_created:
  assumes "a' \<in> set (alertsCreated m (fst (createAlert env rs m a)))"
  shows "\<exists>properties operators lookups ps resolved.
           checkStatus m ''create alert'' = Inr () \<and> alertForCreate env a
           \<and> propertiesResponse rs = Inr properties \<and> operatorsResponse rs = Inr operators
           \<and> resolveConditions env rs properties operators a = (lookups, Inr ps)
           \<and> promiseAll (arrival rs) ps = Some (Inr resolved)
           \<and> a' = a\<lparr>conditions := resolved\<rparr>"
proof (cases "checkStatus m ''create alert''")
  case (Inl e)
  then show ?thesis using assms by (simp add: createAlert_def alertsCreated_def)
next
  case (Inr u)
  then have st: "checkStatus m ''create alert'' = Inr ()" by simp
  show ?thesis
  proof (cases "alertForCreate env a")
    case False
    then show ?thesis using assms st by (simp add: createAlert_def alertsCreated_def)
  next
    case v: True
    show ?thesis
    proof (cases "propertiesResponse rs")
      case (Inl e)
      then show ?thesis
        using assms st v by (simp add: createAlert_def alertsCreated_def Let_def)
    next
      case ps: (Inr properties)
      show ?thesis
      proof (cases "operatorsResponse rs")
        case (Inl e)
        then show ?thesis
          using assms st v ps by (simp add: createAlert_def alertsCreated_def Let_def)
      next
        case os: (Inr operators)
        obtain lookups outcome where
          res: "resolveConditions env rs properties operators a = (lookups, outcome)"
          by (cases "resolveConditions env rs properties operators a") auto
        show ?thesis
        proof (cases outcome)
          case (Inl e)
          show ?thesis
            using assms
            unfolding createAlert_thrown [OF st v ps os res [unfolded Inl]]
            by (simp add: alertsCreated_def)
        next
          case (Inr promises)
          note r = res [unfolded Inr]
          show ?thesis
          proof (cases "promiseAll (arrival rs) promises")
            case None
            show ?thesis
              using assms unfolding createAlert_resolving [OF st v ps os r] None
              by (simp add: alertsCreated_def)
          next
            case (Some result)
            show ?thesis
            proof (cases result)
              case (Inl e)
              show ?thesis
                using assms unfolding createAlert_resolving [OF st v ps os r] Some Inl
                by (simp add: alertsCreated_def)
            next
              case resolved: (Inr resolved)
              have "a' = a\<lparr>conditions := resolved\<rparr>"
                using assms unfolding createAlert_resolving [OF st v ps os r] Some resolved
                by (simp add: alertsCreated_def)
              then show ?thesis using st v ps os r Some resolved by blast
            qed
          qed
        qed
      qed
    qed
  qed
qed

lemma no_create_among_lookups [simp]:
  "concat (map (\<lambda>e. case e of AdapterCreateAlert x \<Rightarrow> [x] | _ \<Rightarrow> []) (map LookupInstrument lookups)) = []"
  by (induction lookups) simp_all


definition oneBadCondition :: alert where
  "oneBadCondition =
     alertOf ''a'' ''price'' [conditionOn 1 ''AAPL'' ''abc'', conditionOn 1 ''MSFT'' ''600'']"

lemmas example_defs =
  threeConditions_def oneBadCondition_def alertOf_def conditionOn_def lastAbove_def
  catalogProperty_def catalogOperator_def exampleEnvironment_def exampleResponses_def
  connectedManager_def propertyKey_def symbolOf_def exampleInstruments_def

lemmas object_defs =
  callsHasOwnProperty_def hasOwnProperty_def assign_def getProperty_def emptyObject_def

lemmas createAlert_defs =
  createAlert_def resolveConditions_def promiseAll_def settledPromises_def firstRejection_def
  conditionPromise_def validateCondition_def operandToParse_def matchesInteger_def
  isDigitOrComma_def checkStatus_def checkDispose_def Let_def


subsection \<open>Two calls outside the statement above\<close>




subsection \<open>The operand of a price condition\<close>

lemma matchesInteger_iff:
  "matchesInteger s \<longleftrightarrow>
     (\<exists>body. (s = body \<or> s = CHR ''-'' # body) \<and> body \<noteq> [] \<and> list_all isDigitOrComma body)"
proof (cases s)
  case Nil
  then show ?thesis by (simp add: matchesInteger_def)
next
  case (Cons ch rest)
  show ?thesis
  proof (cases "ch = CHR ''-''")
    case True
    have "\<not> isDigitOrComma (CHR ''-'')" by (simp add: isDigitOrComma_def)
    then show ?thesis using Cons True by (auto simp: matchesInteger_def)
  next
    case False
    then show ?thesis using Cons by (auto simp: matchesInteger_def)
  qed
qed

text \<open>
  The order in which the promises of the conditions settle, as indices: first those that
  hang on no lookup, in the order of the conditions, then, for each lookup in the order
  the lookups answer, those that hang on it, in the order of the conditions.
\<close>

definition settleOrder :: "nat list \<Rightarrow> (nat option \<times> (error + condition)) list \<Rightarrow> nat list" where
  "settleOrder arrived ps =
     filter (\<lambda>i. fst (ps ! i) = None) [0..<length ps]
     @ concat (map (\<lambda>k. filter (\<lambda>i. fst (ps ! i) = Some k) [0..<length ps]) arrived)"

lemma map_filter_nth:
  "map f (filter P xs) = map (\<lambda>i. f (xs ! i)) (filter (\<lambda>i. P (xs ! i)) [0..<length xs])"
proof -
  have "map f (filter P (map ((!) xs) [0..<length xs]))
          = map (\<lambda>i. f (xs ! i)) (filter (\<lambda>i. P (xs ! i)) [0..<length xs])"
    by (simp add: filter_map comp_def)
  then show ?thesis by (simp add: map_nth)
qed

lemma settledPromises_settleOrder:
  "settledPromises arrived ps = map (\<lambda>i. snd (ps ! i)) (settleOrder arrived ps)"
proof -
  have a: "map snd (filter (\<lambda>x. fst x = None) ps)
             = map (\<lambda>i. snd (ps ! i)) (filter (\<lambda>i. fst (ps ! i) = None) [0..<length ps])"
    by (rule map_filter_nth)
  have b: "map snd (filter (\<lambda>x. fst x = Some k) ps)
             = map (\<lambda>i. snd (ps ! i)) (filter (\<lambda>i. fst (ps ! i) = Some k) [0..<length ps])" for k
    by (rule map_filter_nth)
  show ?thesis
    unfolding settledPromises_def settleOrder_def a b
    by (simp add: map_concat comp_def)
qed

lemma settleOrder_mem:
  assumes "i < length ps" and "case fst (ps ! i) of None \<Rightarrow> True | Some k \<Rightarrow> k \<in> set arrived"
  shows "i \<in> set (settleOrder arrived ps)"
proof (cases "fst (ps ! i)")
  case None
  then show ?thesis using assms(1) by (simp add: settleOrder_def)
next
  case (Some k)
  then have "k \<in> set arrived" using assms(2) by simp
  then show ?thesis using assms(1) Some by (auto simp: settleOrder_def)
qed

lemma settleOrder_bound: "j \<in> set (settleOrder arrived ps) \<Longrightarrow> j < length ps"
  by (auto simp: settleOrder_def)

lemma promiseAll_first_rejection:
  assumes "promiseAll arrived ps = Some (Inl e)"
  shows "\<exists>before j after. settleOrder arrived ps = before @ j # after
           \<and> (\<forall>l\<in>set before. \<not> isl (snd (ps ! l))) \<and> snd (ps ! j) = Inl e"
proof -
  have "firstRejection (settledPromises arrived ps) = Some e"
    using assms by (auto simp: promiseAll_def split: option.splits if_splits)
  then obtain x xs where
    x: "filter isl (map (\<lambda>i. snd (ps ! i)) (settleOrder arrived ps)) = x # xs" "e = projl x"
    unfolding settledPromises_settleOrder by (auto simp: firstRejection_def split: list.splits)
  from x(1) obtain us vs where
    split: "map (\<lambda>i. snd (ps ! i)) (settleOrder arrived ps) = us @ x # vs"
    and none: "\<forall>u\<in>set us. \<not> isl u" and l: "isl x"
    by (auto simp: filter_eq_Cons_iff)
  from split obtain before rest where
    o: "settleOrder arrived ps = before @ rest" "us = map (\<lambda>i. snd (ps ! i)) before"
    "x # vs = map (\<lambda>i. snd (ps ! i)) rest"
    by (auto simp: map_eq_append_conv)
  from o(3) obtain j after where r: "rest = j # after" "snd (ps ! j) = x"
    by (auto simp: Cons_eq_map_conv)
  have "x = Inl e" using l x(2) by (cases x) simp_all
  then have "snd (ps ! j) = Inl e" using r(2) by simp
  moreover have "\<forall>l\<in>set before. \<not> isl (snd (ps ! l))"
    using none o(2) by simp
  ultimately show ?thesis using o(1) r(1) by blast
qed

text \<open>The condition as the callback leaves it after a successful parse.\<close>

definition withPrice :: "environment \<Rightarrow> string \<Rightarrow> number \<Rightarrow> condition \<Rightarrow> condition" where
  "withPrice env code price c =
     c\<lparr>operator := (operator c)
         \<lparr>operand_display := Some (operand (operator c)),
          operand_format := Some (formatPrice env price code),
          operand := OperandNumber price\<rparr>\<rparr>"

lemma conditionPromise_price:
  assumes "pm (property_id (property c)) = Some p" and "om (operator_id (operator c)) = Some oper"
    and "target_type (target p) = Some ''symbol''" and "format p = Some ''price''"
    and "operand_type oper = Some ''number''" and "operand_literal oper"
    and "getProperty im (symbolOf c) = Some k" and "lookupResponse rs k = Inr (Some instr)"
    and "instrumentForCreate env (target_identifier (target (property c))) instr"
  shows "conditionPromise env rs pm om im i c =
     (Some k,
      case valueParser env (operandToParse (operand (operator c)))
             (convertBaseCodeToUnitCode env (unitcode instr)) of
        Inl e \<Rightarrow> Inl e
      | Inr None \<Rightarrow> Inl (ConditionInvalid i)
      | Inr (Some price) \<Rightarrow>
          Inr (withPrice env (convertBaseCodeToUnitCode env (unitcode instr)) price c))"
  using assms
  by (simp add: conditionPromise_def validateCondition_def symbolOf_def Let_def withPrice_def
      split: sum.splits option.splits)

text \<open>
  C6, as the code has it. Take a connected manager, a call of createAlert that has both
  catalogs and has built its maps, and a condition, at index \<open>i\<close>, whose catalog property
  has target type symbol and format price and whose catalog operator takes a literal
  number, the lookup of its symbol having answered with an instrument that the validator
  accepts. Then: an operand string is handed to the parser with \<^verbatim>\<open>'.0'\<close> appended exactly
  when it matches the pattern of an integer with thousands separators. When the parser
  returns no number, the promise of the condition is rejected with the error naming index
  \<open>i\<close>, and createAlert is rejected with the error of the first promise to be rejected in
  the order the promises of the conditions settle (first those of the conditions without
  a symbol target, then those of each lookup as the lookups answer, in the order of the
  conditions); that is the error naming index \<open>i\<close> when no promise that settles before
  that of condition \<open>i\<close> is rejected, in particular when no other condition is rejected;
  the adapter's createAlert is not called. When the parser returns a price, the condition
  is resolved with \<^verbatim>\<open>operand_display\<close> the original operand, \<^verbatim>\<open>operand_format\<close> the formatted
  price and \<^verbatim>\<open>operand\<close> the price, and that is the condition at index \<open>i\<close> of any alert
  handed to the adapter.
\<close>

theorem price_operand_resolved:
  assumes st: "checkStatus m ''create alert'' = Inr ()" and v: "alertForCreate env a"
    and ps: "propertiesResponse rs = Inr properties" and os: "operatorsResponse rs = Inr operators"
    and pm: "buildPropertyMap properties (conditions a) Map.empty = Inr pm"
    and om: "buildOperatorMap operators (conditions a) Map.empty = Inr om"
    and im: "buildInstrumentMap pm (conditions a) (emptyObject, []) = ((im, lookups), None)"
    and i: "i < length (conditions a)"
    and p: "pm (property_id (property (conditions a ! i))) = Some p"
    and oper: "om (operator_id (operator (conditions a ! i))) = Some oper"
    and sym: "target_type (target p) = Some ''symbol''"
    and price: "format p = Some ''price''" "operand_type oper = Some ''number''" "operand_literal oper"
    and k: "getProperty im (symbolOf (conditions a ! i)) = Some k" "k \<in> set (arrival rs)"
    and instr: "lookupResponse rs k = Inr (Some instr)"
      "instrumentForCreate env (target_identifier (target (property (conditions a ! i)))) instr"
  shows "(\<forall>s. operand (operator (conditions a ! i)) = OperandString s \<longrightarrow>
           operandToParse (operand (operator (conditions a ! i)))
             = OperandString (if matchesInteger s then s @ ''.0'' else s))
    \<and> (valueParser env (operandToParse (operand (operator (conditions a ! i))))
          (convertBaseCodeToUnitCode env (unitcode instr)) = Inr None \<longrightarrow>
        snd (conditionPromises env rs pm om im 0 (conditions a) ! i) = Inl (ConditionInvalid i)
        \<and> (\<exists>e. snd (createAlert env rs m a) = Some (Inl e)
              \<and> (\<exists>before j after.
                    settleOrder (arrival rs) (conditionPromises env rs pm om im 0 (conditions a))
                      = before @ j # after
                    \<and> j < length (conditions a)
                    \<and> (\<forall>l\<in>set before.
                          \<not> isl (snd (conditionPromises env rs pm om im 0 (conditions a) ! l)))
                    \<and> snd (conditionPromises env rs pm om im 0 (conditions a) ! j) = Inl e)
              \<and> ((\<forall>l\<in>set (takeWhile (\<lambda>l. l \<noteq> i)
                               (settleOrder (arrival rs)
                                  (conditionPromises env rs pm om im 0 (conditions a)))).
                     \<not> isl (snd (conditionPromises env rs pm om im 0 (conditions a) ! l)))
                  \<longrightarrow> e = ConditionInvalid i)
              \<and> ((\<forall>j<length (conditions a). j \<noteq> i \<longrightarrow>
                     \<not> isl (snd (conditionPromises env rs pm om im 0 (conditions a) ! j)))
                  \<longrightarrow> e = ConditionInvalid i))
        \<and> alertsCreated m (fst (createAlert env rs m a)) = [])
    \<and> (\<forall>price. valueParser env (operandToParse (operand (operator (conditions a ! i))))
                   (convertBaseCodeToUnitCode env (unitcode instr)) = Inr (Some price) \<longrightarrow>
          snd (conditionPromises env rs pm om im 0 (conditions a) ! i)
            = Inr (withPrice env (convertBaseCodeToUnitCode env (unitcode instr)) price
                     (conditions a ! i))
          \<and> operand_display (operator (withPrice env (convertBaseCodeToUnitCode env (unitcode instr))
                                          price (conditions a ! i)))
              = Some (operand (operator (conditions a ! i)))
          \<and> operand_format (operator (withPrice env (convertBaseCodeToUnitCode env (unitcode instr))
                                         price (conditions a ! i)))
              = Some (formatPrice env price (convertBaseCodeToUnitCode env (unitcode instr)))
          \<and> operand (operator (withPrice env (convertBaseCodeToUnitCode env (unitcode instr))
                                  price (conditions a ! i)))
              = OperandNumber price
          \<and> (\<forall>a'\<in>set (alertsCreated m (fst (createAlert env rs m a))).
                conditions a' ! i
                  = withPrice env (convertBaseCodeToUnitCode env (unitcode instr)) price
                      (conditions a ! i)))"
proof -
  let ?c = "conditions a ! i"
  let ?code = "convertBaseCodeToUnitCode env (unitcode instr)"
  let ?ps = "conditionPromises env rs pm om im 0 (conditions a)"
  let ?parsed = "valueParser env (operandToParse (operand (operator ?c))) ?code"
  have res: "resolveConditions env rs properties operators a = (lookups, Inr ?ps)"
    using pm om im by (simp add: resolveConditions_def)
  have nth: "?ps ! i =
     (Some k,
      case ?parsed of
        Inl e \<Rightarrow> Inl e
      | Inr None \<Rightarrow> Inl (ConditionInvalid i)
      | Inr (Some price) \<Rightarrow> Inr (withPrice env ?code price ?c))"
    using nth_conditionPromises [OF i, of env rs pm om im 0]
      conditionPromise_price [where pm = pm and om = om and im = im and c = "conditions a ! i"
        and env = env and rs = rs and i = i, OF p oper sym price k(1) instr]
    by simp
  have mem: "?ps ! i \<in> set ?ps" using i by simp
  have one: "\<forall>s. operand (operator ?c) = OperandString s \<longrightarrow>
           operandToParse (operand (operator ?c))
             = OperandString (if matchesInteger s then s @ ''.0'' else s)"
    by (simp add: operandToParse_def)
  have two: "snd (?ps ! i) = Inl (ConditionInvalid i)
        \<and> (\<exists>e. snd (createAlert env rs m a) = Some (Inl e)
              \<and> (\<exists>before j after. settleOrder (arrival rs) ?ps = before @ j # after
                    \<and> j < length (conditions a)
                    \<and> (\<forall>l\<in>set before. \<not> isl (snd (?ps ! l)))
                    \<and> snd (?ps ! j) = Inl e)
              \<and> ((\<forall>l\<in>set (takeWhile (\<lambda>l. l \<noteq> i) (settleOrder (arrival rs) ?ps)).
                     \<not> isl (snd (?ps ! l)))
                  \<longrightarrow> e = ConditionInvalid i)
              \<and> ((\<forall>j<length (conditions a). j \<noteq> i \<longrightarrow> \<not> isl (snd (?ps ! j)))
                  \<longrightarrow> e = ConditionInvalid i))
        \<and> alertsCreated m (fst (createAlert env rs m a)) = []"
    if none: "?parsed = Inr None"
  proof -
    have rej: "snd (?ps ! i) = Inl (ConditionInvalid i)" "fst (?ps ! i) = Some k"
      using nth none by simp_all
    have "\<exists>e. promiseAll (arrival rs) ?ps = Some (Inl e)"
      using promiseAll_rejects [OF mem] rej k(2) by simp
    then obtain e where e: "promiseAll (arrival rs) ?ps = Some (Inl e)" by blast
    from promiseAll_first_rejection [OF e]
    obtain before j after where o: "settleOrder (arrival rs) ?ps = before @ j # after"
      "\<forall>l\<in>set before. \<not> isl (snd (?ps ! l))" "snd (?ps ! j) = Inl e"
      by blast
    have "j \<in> set (settleOrder (arrival rs) ?ps)" using o(1) by simp
    then have j: "j < length (conditions a)"
      using settleOrder_bound by fastforce
    have settles: "i \<in> set (settleOrder (arrival rs) ?ps)"
      using settleOrder_mem [of i ?ps "arrival rs"] i rej(2) k(2) by simp
    have notbefore: "i \<notin> set before"
      using o(2) rej(1) by auto
    have early: "e = ConditionInvalid i"
      if quiet: "\<forall>l\<in>set (takeWhile (\<lambda>l. l \<noteq> i) (settleOrder (arrival rs) ?ps)).
                   \<not> isl (snd (?ps ! l))"
    proof (cases "j = i")
      case True
      then show ?thesis using o(3) rej(1) by simp
    next
      case False
      have "takeWhile (\<lambda>l. l \<noteq> i) (before @ j # after)
              = before @ takeWhile (\<lambda>l. l \<noteq> i) (j # after)"
        using notbefore by (intro takeWhile_append2) auto
      then have "j \<in> set (takeWhile (\<lambda>l. l \<noteq> i) (settleOrder (arrival rs) ?ps))"
        using False o(1) by simp
      then have "\<not> isl (snd (?ps ! j))" using quiet by blast
      then show ?thesis using o(3) by simp
    qed
    have only: "e = ConditionInvalid i"
      if "\<forall>j<length (conditions a). j \<noteq> i \<longrightarrow> \<not> isl (snd (?ps ! j))"
    proof -
      have "j = i" using that j o(3) by (cases "j = i") auto
      then show ?thesis using o(3) rej(1) by simp
    qed
    have out: "snd (createAlert env rs m a) = Some (Inl e)"
      "alertsCreated m (fst (createAlert env rs m a)) = []"
      unfolding createAlert_resolving [OF st v ps os res] e
      by (simp_all add: alertsCreated_def)
    have order: "\<exists>before j after. settleOrder (arrival rs) ?ps = before @ j # after
                    \<and> j < length (conditions a)
                    \<and> (\<forall>l\<in>set before. \<not> isl (snd (?ps ! l)))
                    \<and> snd (?ps ! j) = Inl e"
      using o j by blast
    show ?thesis using rej(1) out order early only by blast
  qed
  have three: "snd (?ps ! i) = Inr (withPrice env ?code price ?c)
          \<and> operand_display (operator (withPrice env ?code price ?c)) = Some (operand (operator ?c))
          \<and> operand_format (operator (withPrice env ?code price ?c)) = Some (formatPrice env price ?code)
          \<and> operand (operator (withPrice env ?code price ?c)) = OperandNumber price
          \<and> (\<forall>a'\<in>set (alertsCreated m (fst (createAlert env rs m a))).
                conditions a' ! i = withPrice env ?code price ?c)"
    if some: "?parsed = Inr (Some price)" for price
  proof -
    have ok: "snd (?ps ! i) = Inr (withPrice env ?code price ?c)"
      using nth some by simp
    have handed: "conditions a' ! i = withPrice env ?code price ?c"
      if "a' \<in> set (alertsCreated m (fst (createAlert env rs m a)))" for a'
    proof -
      from createAlert_created [OF that]
      obtain properties' operators' lookups' ps' resolved where c:
        "propertiesResponse rs = Inr properties'" "operatorsResponse rs = Inr operators'"
        "resolveConditions env rs properties' operators' a = (lookups', Inr ps')"
        "promiseAll (arrival rs) ps' = Some (Inr resolved)"
        "a' = a\<lparr>conditions := resolved\<rparr>"
        by blast
      have "ps' = ?ps" using c(1,2,3) ps os res by simp
      then have "resolved = map (\<lambda>x. projr (snd x)) ?ps"
        using promiseAll_fulfilled(2) [OF c(4)] by simp
      then have "conditions a' ! i = projr (snd (?ps ! i))"
        using c(5) i by simp
      then show ?thesis using ok by simp
    qed
    show ?thesis using ok handed by (simp add: withPrice_def)
  qed
  show ?thesis using one two three by blast
qed

theorem price_operand_resolved_witness:
  "matchesInteger ''1,234''
   \<and> (\<exists>a'. alertsCreated connectedManager
              (fst (createAlert exampleEnvironment exampleResponses connectedManager threeConditions))
            = [a']
          \<and> conditions a' ! 1
              = withPrice exampleEnvironment ''2'' (Finite 1234) (conditionOn 1 ''MSFT'' ''1,234''))
   \<and> operand_display (operator (withPrice exampleEnvironment ''2'' (Finite 1234)
                                    (conditionOn 1 ''MSFT'' ''1,234'')))
       = Some (OperandString ''1,234'')
   \<and> operand_format (operator (withPrice exampleEnvironment ''2'' (Finite 1234)
                                   (conditionOn 1 ''MSFT'' ''1,234'')))
       = Some ''1,234.00''"
proof -
  let ?pm = "[Some 1 \<mapsto> catalogProperty 1 ''symbol'' ''price'']"
  let ?om = "[Some 2 \<mapsto> catalogOperator 2]"
  let ?instr = "\<lparr>unitcode = 2, instrument_symbol = ''X''\<rparr>"
  let ?c = "conditionOn 1 ''MSFT'' ''1,234''"
  have c: "conditions threeConditions ! 1 = ?c"
    by (simp add: threeConditions_def alertOf_def)
  have st: "checkStatus connectedManager ''create alert'' = Inr ()"
    by (rule connectedManager_status)
  have v: "alertForCreate exampleEnvironment threeConditions"
    by (simp add: exampleEnvironment_def)
  have ps: "propertiesResponse exampleResponses
              = Inr [catalogProperty 1 ''symbol'' ''price'', catalogProperty 7 ''portfolio'' ''price'']"
    and os: "operatorsResponse exampleResponses = Inr [catalogOperator 2]"
    by (simp_all add: exampleResponses_def)
  have i: "1 < length (conditions threeConditions)"
    by (simp add: threeConditions_def alertOf_def)
  have p: "?pm (property_id (property (conditions threeConditions ! 1)))
             = Some (catalogProperty 1 ''symbol'' ''price'')"
    and oper: "?om (operator_id (operator (conditions threeConditions ! 1)))
             = Some (catalogOperator 2)"
    and k: "getProperty exampleInstruments (symbolOf (conditions threeConditions ! 1)) = Some (Suc 0)"
    unfolding c by (simp_all add: example_defs object_defs)
  have sym: "target_type (target (catalogProperty 1 ''symbol'' ''price'')) = Some ''symbol''"
    and price: "format (catalogProperty 1 ''symbol'' ''price'') = Some ''price''"
      "operand_type (catalogOperator 2) = Some ''number''" "operand_literal (catalogOperator 2)"
    by (simp_all add: catalogProperty_def catalogOperator_def)
  have arrived: "Suc 0 \<in> set (arrival exampleResponses)"
    and answer: "lookupResponse exampleResponses (Suc 0) = Inr (Some ?instr)"
    and valid: "instrumentForCreate exampleEnvironment
                  (target_identifier (target (property (conditions threeConditions ! 1)))) ?instr"
    by (simp_all add: exampleResponses_def exampleEnvironment_def)
  have code: "convertBaseCodeToUnitCode exampleEnvironment (unitcode ?instr) = ''2''"
    by (simp add: exampleEnvironment_def)
  have m: "matchesInteger ''1,234''"
    by (simp add: matchesInteger_def isDigitOrComma_def)
  have parsed: "valueParser exampleEnvironment
                  (operandToParse (operand (operator (conditions threeConditions ! 1))))
                  (convertBaseCodeToUnitCode exampleEnvironment (unitcode ?instr))
                = Inr (Some (Finite 1234))"
    unfolding c
    by (simp add: example_defs operandToParse_def matchesInteger_def isDigitOrComma_def)
  note w = price_operand_resolved
    [OF st v ps os threeConditions_maps threeConditions_instruments i p oper sym price k arrived
       answer valid]
  from w parsed have handed:
    "\<forall>a'\<in>set (alertsCreated connectedManager
                 (fst (createAlert exampleEnvironment exampleResponses connectedManager threeConditions))).
       conditions a' ! 1 = withPrice exampleEnvironment ''2'' (Finite 1234) ?c"
    unfolding code c by blast
  have "\<exists>a'. alertsCreated connectedManager
               (fst (createAlert exampleEnvironment exampleResponses connectedManager threeConditions))
             = [a']"
    by (simp add: alertsCreated_def createAlert_defs example_defs object_defs)
  then obtain a' where a': "alertsCreated connectedManager
               (fst (createAlert exampleEnvironment exampleResponses connectedManager threeConditions))
             = [a']" by blast
  then have "conditions a' ! 1 = withPrice exampleEnvironment ''2'' (Finite 1234) ?c"
    using handed by simp
  moreover have "operand_display (operator (withPrice exampleEnvironment ''2'' (Finite 1234) ?c))
                   = Some (OperandString ''1,234'')"
    "operand_format (operator (withPrice exampleEnvironment ''2'' (Finite 1234) ?c))
       = Some ''1,234.00''"
    by (simp_all add: withPrice_def example_defs)
  ultimately show ?thesis using m a' by blast
qed

subsection \<open>Two alerts the statement leaves out\<close>

definition unparsedPortfolio :: alert where
  "unparsedPortfolio = alertOf ''b'' ''price'' [conditionOn 7 ''MSFT'' ''xyz'']"

definition twoBadConditions :: alert where
  "twoBadConditions =
     alertOf ''a'' ''price'' [conditionOn 1 ''AAPL'' ''abc'', conditionOn 1 ''MSFT'' ''xyz'']"

text \<open>
  The first alert has one condition on a property of format price whose target type is
  not symbol, with an operand that the parser does not read as a number: createAlert
  resolves and hands the alert to the adapter as it is, without \<^verbatim>\<open>operand_display\<close> and
  \<^verbatim>\<open>operand_format\<close>. In the second alert both operands fail to parse and the lookup for
  the second symbol answers first: createAlert is rejected with the error naming index
  1, not index 0.
\<close>

theorem price_operand_counterexample:
  "format (catalogProperty 7 ''portfolio'' ''price'') = Some ''price''
   \<and> operand_type (catalogOperator 2) = Some ''number'' \<and> operand_literal (catalogOperator 2)
   \<and> valueParser exampleEnvironment (operandToParse (OperandString ''xyz'')) ''2'' = Inr None
   \<and> snd (createAlert exampleEnvironment exampleResponses connectedManager unparsedPortfolio)
       = Some (createResponse exampleResponses)
   \<and> alertsCreated connectedManager
        (fst (createAlert exampleEnvironment exampleResponses connectedManager unparsedPortfolio))
       = [unparsedPortfolio]
   \<and> operand_display (operator (conditions unparsedPortfolio ! 0)) = None
   \<and> failsToParse exampleEnvironment exampleResponses
        [Some 1 \<mapsto> catalogProperty 1 ''symbol'' ''price''] [Some 2 \<mapsto> catalogOperator 2]
        exampleInstruments (conditions twoBadConditions ! 0)
   \<and> snd (createAlert exampleEnvironment exampleResponses connectedManager twoBadConditions)
       = Some (Inl (ConditionInvalid 1))"
proof -
  have a: "format (catalogProperty 7 ''portfolio'' ''price'') = Some ''price''"
    "operand_type (catalogOperator 2) = Some ''number''" "operand_literal (catalogOperator 2)"
    by (simp_all add: catalogProperty_def catalogOperator_def)
  have b: "valueParser exampleEnvironment (operandToParse (OperandString ''xyz'')) ''2'' = Inr None"
    by (simp add: exampleEnvironment_def operandToParse_def matchesInteger_def isDigitOrComma_def)
  have c: "snd (createAlert exampleEnvironment exampleResponses connectedManager unparsedPortfolio)
       = Some (createResponse exampleResponses)"
    by (simp add: createAlert_defs example_defs object_defs unparsedPortfolio_def)
  have d: "alertsCreated connectedManager
        (fst (createAlert exampleEnvironment exampleResponses connectedManager unparsedPortfolio))
       = [unparsedPortfolio]"
    by (simp add: alertsCreated_def createAlert_defs example_defs object_defs unparsedPortfolio_def)
  have d': "operand_display (operator (conditions unparsedPortfolio ! 0)) = None"
    by (simp add: example_defs unparsedPortfolio_def)
  have e: "failsToParse exampleEnvironment exampleResponses
        [Some 1 \<mapsto> catalogProperty 1 ''symbol'' ''price''] [Some 2 \<mapsto> catalogOperator 2]
        exampleInstruments (conditions twoBadConditions ! 0)"
    by (simp add: failsToParse_def example_defs object_defs twoBadConditions_def operandToParse_def
          matchesInteger_def isDigitOrComma_def)
  have f: "snd (createAlert exampleEnvironment exampleResponses connectedManager twoBadConditions)
       = Some (Inl (ConditionInvalid 1))"
    by (simp add: createAlert_defs example_defs object_defs twoBadConditions_def)
  show ?thesis using a b c d d' e f by blast
qed

end
